theory Spec2Isabelle
  imports Main "HOL-Library.Word"
begin

section \<open>Frame layout constants (src/frames.h)\<close>

text \<open>
  The constants of \<^verbatim>\<open>frames.h\<close> are computed from four values that the header takes
  from elsewhere (\<^verbatim>\<open>kPointerSize\<close>, \<^verbatim>\<open>kPCOnStackSize\<close>, \<^verbatim>\<open>kFPOnStackSize\<close> and the flag
  \<^verbatim>\<open>FLAG_enable_embedded_constant_pool\<close>); they are the fields of \<open>arch\<close>.
  All constants are \<^verbatim>\<open>static const int\<close>; they are small multiples of the pointer size,
  so they are modelled as \<open>int\<close>.
\<close>

record arch =
  kPointerSize :: int
  kPCOnStackSize :: int
  kFPOnStackSize :: int
  FLAG_enable_embedded_constant_pool :: bool

text \<open>\<^verbatim>\<open>class StandardFrameConstants\<close>\<close>

definition kCPSlotSize :: "arch \<Rightarrow> int" where
  "kCPSlotSize a = (if FLAG_enable_embedded_constant_pool a then kPointerSize a else 0)"

definition kFixedFrameSizeFromFp :: "arch \<Rightarrow> int" where
  "kFixedFrameSizeFromFp a = 2 * kPointerSize a + kCPSlotSize a"

definition kFixedFrameSizeAboveFp :: "arch \<Rightarrow> int" where
  "kFixedFrameSizeAboveFp a = kPCOnStackSize a + kFPOnStackSize a"

definition kFixedFrameSize :: "arch \<Rightarrow> int" where
  "kFixedFrameSize a = kFixedFrameSizeAboveFp a + kFixedFrameSizeFromFp a"

definition kExpressionsOffset :: "arch \<Rightarrow> int" where
  "kExpressionsOffset a = -3 * kPointerSize a - kCPSlotSize a"

definition kMarkerOffset :: "arch \<Rightarrow> int" where
  "kMarkerOffset a = -2 * kPointerSize a - kCPSlotSize a"

definition kContextOffset :: "arch \<Rightarrow> int" where
  "kContextOffset a = -1 * kPointerSize a - kCPSlotSize a"

definition kCallerFPOffset :: "arch \<Rightarrow> int" where
  "kCallerFPOffset a = 0 * kPointerSize a"

definition kCallerPCOffset :: "arch \<Rightarrow> int" where
  "kCallerPCOffset a = 1 * kFPOnStackSize a"

definition kCallerSPOffset :: "arch \<Rightarrow> int" where
  "kCallerSPOffset a = kCallerPCOffset a + 1 * kPCOnStackSize a"

text \<open>\<^verbatim>\<open>class ArgumentsAdaptorFrameConstants\<close>\<close>

definition ArgumentsAdaptor_kLengthOffset :: "arch \<Rightarrow> int" where
  "ArgumentsAdaptor_kLengthOffset a = kExpressionsOffset a"

definition ArgumentsAdaptor_kFrameSize :: "arch \<Rightarrow> int" where
  "ArgumentsAdaptor_kFrameSize a = kFixedFrameSize a + kPointerSize a"

text \<open>\<^verbatim>\<open>class ConstructFrameConstants\<close>\<close>

definition kImplicitReceiverOffset :: "arch \<Rightarrow> int" where
  "kImplicitReceiverOffset a = kExpressionsOffset a - 3 * kPointerSize a"

definition kLengthOffset :: "arch \<Rightarrow> int" where
  "kLengthOffset a = kExpressionsOffset a - 2 * kPointerSize a"

definition kAllocationSiteOffset :: "arch \<Rightarrow> int" where
  "kAllocationSiteOffset a = kExpressionsOffset a - 1 * kPointerSize a"

definition kCodeOffset :: "arch \<Rightarrow> int" where
  "kCodeOffset a = kExpressionsOffset a - 0 * kPointerSize a"

definition Construct_kFrameSize :: "arch \<Rightarrow> int" where
  "Construct_kFrameSize a = kFixedFrameSize a + 4 * kPointerSize a"

text \<open>
  The slots of a construct frame that are not part of the standard fixed frame, from the
  one nearest to the frame pointer downwards.
\<close>

definition construct_frame_slots :: "arch \<Rightarrow> int list" where
  "construct_frame_slots a =
     [kCodeOffset a, kAllocationSiteOffset a, kLengthOffset a, kImplicitReceiverOffset a]"

text \<open>
  The offset (relative to the frame pointer) of the \<open>k\<close>-th pointer-sized slot below the
  standard fixed part of a frame, \<open>k = 0\<close> being the slot directly below it.
\<close>

definition slot_below_fixed :: "arch \<Rightarrow> nat \<Rightarrow> int" where
  "slot_below_fixed a k = - kFixedFrameSizeFromFp a - (int k + 1) * kPointerSize a"

definition ia32 :: arch where
  "ia32 = \<lparr>kPointerSize = 4, kPCOnStackSize = 4, kFPOnStackSize = 4,
           FLAG_enable_embedded_constant_pool = False\<rparr>"

section \<open>Notification of a completed deoptimization (src/runtime/runtime-compiler.cc)\<close>

text \<open>
  Heap objects are identified by their address. The part of the isolate that
  \<^verbatim>\<open>Runtime_NotifyDeoptimized\<close> reads and writes is the record \<open>runtime_state\<close>:
  the deoptimizer that \<^verbatim>\<open>Deoptimizer::Grab\<close> hands out, the code of each function, the
  unoptimized code and the optimized-code map of its shared function info, the JavaScript
  frames of the running thread (top frame first) and of the archived threads, and the
  context register. \<^verbatim>\<open>Code::contains\<close> is not part of the sources at hand and is a field
  of the state. The calls into the deoptimizer, whose bodies are not part of the sources at
  hand either, are recorded in \<open>calls\<close> in the order in which they are made.
\<close>

type_synonym Address = nat
type_synonym Code = nat
type_synonym JSFunction = nat
type_synonym SharedFunctionInfo = nat

record JavaScriptFrame =
  frame_pc :: Address
  frame_function :: "JSFunction option"
  frame_context :: Address

datatype deoptimizer_call =
  MaterializeHeapObjects
  | DeleteDeoptimizer
  | DeoptimizeFunction JSFunction

datatype runtime_error = IllegalOperation | Fatal

text \<open>
  The members of \<^verbatim>\<open>class Deoptimizer\<close> that the notification reads (member names are
  written without their trailing underscore). \<open>materialize_advance\<close> is the number of frames by which
  \<^verbatim>\<open>Deoptimizer::MaterializeHeapObjects\<close> advances the frame iterator it is given.
\<close>

record Deoptimizer =
  deopt_function :: JSFunction
  compiled_code :: Code
  bailout_type :: int
  materialize_advance :: nat

record runtime_state =
  current_deoptimizer :: "Deoptimizer option"
  function_code :: "JSFunction \<Rightarrow> Code"
  function_shared :: "JSFunction \<Rightarrow> SharedFunctionInfo"
  shared_code :: "SharedFunctionInfo \<Rightarrow> Code"
  optimized_code_map :: "SharedFunctionInfo \<Rightarrow> Code set"
  code_contains :: "Code \<Rightarrow> Address \<Rightarrow> bool"
  thread_frames :: "JavaScriptFrame list"
  archived_threads :: "JavaScriptFrame list list"
  isolate_context :: Address
  calls :: "deoptimizer_call list"

text \<open>\<^verbatim>\<open>enum BailoutType { EAGER, LAZY, SOFT, DEBUGGER }\<close> of \<^verbatim>\<open>deoptimizer.h\<close>\<close>

definition EAGER :: int where "EAGER = 0"
definition LAZY :: int where "LAZY = 1"
definition SOFT :: int where "SOFT = 2"
definition DEBUGGER :: int where "DEBUGGER = 3"

text \<open>
  \<^verbatim>\<open>ActivationsFinder::VisitFrames\<close>: the loop over the frames that the iterator has
  left; the last argument is the field \<^verbatim>\<open>has_code_activations\<close>.
\<close>

fun VisitFrames :: "(Code \<Rightarrow> Address \<Rightarrow> bool) \<Rightarrow> Code \<Rightarrow> JavaScriptFrame list \<Rightarrow> bool \<Rightarrow> bool" where
  "VisitFrames cont c [] has_code_activations = has_code_activations"
| "VisitFrames cont c (frame # it) has_code_activations =
     VisitFrames cont c it (if cont c (frame_pc frame) then True else has_code_activations)"

text \<open>
  \<^verbatim>\<open>ThreadManager::IterateArchivedThreads\<close> calls \<^verbatim>\<open>VisitThread\<close> for each
  archived thread, which visits the JavaScript frames of that thread.
\<close>

fun IterateArchivedThreads ::
  "(Code \<Rightarrow> Address \<Rightarrow> bool) \<Rightarrow> Code \<Rightarrow> JavaScriptFrame list list \<Rightarrow> bool \<Rightarrow> bool" where
  "IterateArchivedThreads cont c [] has_code_activations = has_code_activations"
| "IterateArchivedThreads cont c (thread # threads) has_code_activations =
     IterateArchivedThreads cont c threads (VisitFrames cont c thread has_code_activations)"

text \<open>
  \<^verbatim>\<open>RUNTIME_FUNCTION(Runtime_NotifyDeoptimized)\<close>. The debug-only \<^verbatim>\<open>DCHECK\<close>s are
  left out. Reading the frame of an iterator that is done, and grabbing a deoptimizer when
  there is none, end the run (\<open>Fatal\<close>); \<^verbatim>\<open>RUNTIME_ASSERT\<close> returns with an illegal-operation
  exception. The value returned on success is always \<^verbatim>\<open>undefined\<close>, so the result is
  the state alone.
\<close>

definition Runtime_NotifyDeoptimized :: "runtime_state \<Rightarrow> int \<Rightarrow> runtime_error + runtime_state" where
  "Runtime_NotifyDeoptimized isolate type_arg =
     (case current_deoptimizer isolate of
        None \<Rightarrow> Inl Fatal
      | Some deoptimizer \<Rightarrow>
          let isolate = isolate\<lparr>current_deoptimizer := None\<rparr>;
              function = deopt_function deoptimizer;
              optimized_code = compiled_code deoptimizer;
              it = thread_frames isolate;
              isolate = isolate\<lparr>calls := calls isolate @ [MaterializeHeapObjects]\<rparr>;
              it = drop (materialize_advance deoptimizer) it;
              isolate = isolate\<lparr>calls := calls isolate @ [DeleteDeoptimizer]\<rparr>
          in (case it of
                [] \<Rightarrow> Inl Fatal
              | frame # _ \<Rightarrow>
                  if frame_function frame = None then Inl IllegalOperation
                  else (case thread_frames isolate of
                          [] \<Rightarrow> Inl Fatal
                        | top_frame # _ \<Rightarrow>
                            let isolate = isolate\<lparr>isolate_context := frame_context top_frame\<rparr>
                            in if type_arg = LAZY then Inr isolate
                               else
                                 let has_code_activations =
                                       IterateArchivedThreads (code_contains isolate) optimized_code
                                         (archived_threads isolate)
                                         (VisitFrames (code_contains isolate) optimized_code it False)
                                 in if \<not> has_code_activations then
                                      let isolate =
                                            (if function_code isolate function = optimized_code
                                             then isolate\<lparr>function_code := (function_code isolate)
                                                    (function := shared_code isolate (function_shared isolate function))\<rparr>
                                             else isolate);
                                          shared = function_shared isolate function
                                      in Inr (isolate\<lparr>optimized_code_map := (optimized_code_map isolate)
                                                (shared := optimized_code_map isolate shared - {optimized_code})\<rparr>)
                                    else
                                      Inr (isolate\<lparr>calls := calls isolate @ [DeoptimizeFunction function]\<rparr>))))"

text \<open>
  The frames that the search for activations looks at: those that the iterator has left
  on the running thread, and all frames of the archived threads.
\<close>

definition searched_frames :: "runtime_state \<Rightarrow> Deoptimizer \<Rightarrow> JavaScriptFrame list" where
  "searched_frames isolate d =
     drop (materialize_advance d) (thread_frames isolate) @ concat (archived_threads isolate)"

definition remaining_activations :: "runtime_state \<Rightarrow> Deoptimizer \<Rightarrow> bool" where
  "remaining_activations isolate d =
     list_ex (\<lambda>frame. code_contains isolate (compiled_code d) (frame_pc frame))
       (searched_frames isolate d)"

text \<open>A state for the examples: function 1 with optimized code 5 and unoptimized code 3.\<close>

definition example_deoptimizer :: "int \<Rightarrow> Deoptimizer" where
  "example_deoptimizer t =
     \<lparr>deopt_function = 1, compiled_code = 5, bailout_type = t, materialize_advance = 0\<rparr>"

definition example_runtime :: "int \<Rightarrow> Code \<Rightarrow> JavaScriptFrame list list \<Rightarrow> runtime_state" where
  "example_runtime t c archived =
     \<lparr>current_deoptimizer = Some (example_deoptimizer t),
      function_code = (\<lambda>f. c),
      function_shared = (\<lambda>f. 2),
      shared_code = (\<lambda>s. 3),
      optimized_code_map = (\<lambda>s. {5}),
      code_contains = (\<lambda>code pc. code = 5 \<and> 500 \<le> pc \<and> pc < 600),
      thread_frames = [\<lparr>frame_pc = 310, frame_function = Some 1, frame_context = 40\<rparr>],
      archived_threads = archived,
      isolate_context = 0,
      calls = []\<rparr>"

section \<open>Translations (src/deoptimizer.h)\<close>

text \<open>\<^verbatim>\<open>TRANSLATION_OPCODE_LIST\<close> and \<^verbatim>\<open>enum Translation::Opcode\<close>.\<close>

datatype Opcode =
  BEGIN
  | JS_FRAME
  | INTERPRETED_FRAME
  | CONSTRUCT_STUB_FRAME
  | GETTER_STUB_FRAME
  | SETTER_STUB_FRAME
  | ARGUMENTS_ADAPTOR_FRAME
  | COMPILED_STUB_FRAME
  | DUPLICATED_OBJECT
  | ARGUMENTS_OBJECT
  | CAPTURED_OBJECT
  | REGISTER
  | INT32_REGISTER
  | UINT32_REGISTER
  | BOOL_REGISTER
  | DOUBLE_REGISTER
  | STACK_SLOT
  | INT32_STACK_SLOT
  | UINT32_STACK_SLOT
  | BOOL_STACK_SLOT
  | DOUBLE_STACK_SLOT
  | LITERAL
  | JS_FRAME_FUNCTION

definition TRANSLATION_OPCODE_LIST :: "Opcode list" where
  "TRANSLATION_OPCODE_LIST =
     [BEGIN, JS_FRAME, INTERPRETED_FRAME, CONSTRUCT_STUB_FRAME, GETTER_STUB_FRAME,
      SETTER_STUB_FRAME, ARGUMENTS_ADAPTOR_FRAME, COMPILED_STUB_FRAME, DUPLICATED_OBJECT,
      ARGUMENTS_OBJECT, CAPTURED_OBJECT, REGISTER, INT32_REGISTER, UINT32_REGISTER,
      BOOL_REGISTER, DOUBLE_REGISTER, STACK_SLOT, INT32_STACK_SLOT, UINT32_STACK_SLOT,
      BOOL_STACK_SLOT, DOUBLE_STACK_SLOT, LITERAL, JS_FRAME_FUNCTION]"

text \<open>The value of an enumerator is its place in the list.\<close>

fun opcode_value :: "Opcode \<Rightarrow> int" where
  "opcode_value BEGIN = 0"
| "opcode_value JS_FRAME = 1"
| "opcode_value INTERPRETED_FRAME = 2"
| "opcode_value CONSTRUCT_STUB_FRAME = 3"
| "opcode_value GETTER_STUB_FRAME = 4"
| "opcode_value SETTER_STUB_FRAME = 5"
| "opcode_value ARGUMENTS_ADAPTOR_FRAME = 6"
| "opcode_value COMPILED_STUB_FRAME = 7"
| "opcode_value DUPLICATED_OBJECT = 8"
| "opcode_value ARGUMENTS_OBJECT = 9"
| "opcode_value CAPTURED_OBJECT = 10"
| "opcode_value REGISTER = 11"
| "opcode_value INT32_REGISTER = 12"
| "opcode_value UINT32_REGISTER = 13"
| "opcode_value BOOL_REGISTER = 14"
| "opcode_value DOUBLE_REGISTER = 15"
| "opcode_value STACK_SLOT = 16"
| "opcode_value INT32_STACK_SLOT = 17"
| "opcode_value UINT32_STACK_SLOT = 18"
| "opcode_value BOOL_STACK_SLOT = 19"
| "opcode_value DOUBLE_STACK_SLOT = 20"
| "opcode_value LITERAL = 21"
| "opcode_value JS_FRAME_FUNCTION = 22"

text \<open>
  \<^verbatim>\<open>static_cast<Translation::Opcode>(iterator->Next())\<close>: a value that is no
  enumerator has no opcode.
\<close>

definition opcode_of :: "int \<Rightarrow> Opcode option" where
  "opcode_of v =
     (if 0 \<le> v \<and> v < 23 then Some (TRANSLATION_OPCODE_LIST ! nat v) else None)"

text \<open>
  Modelled from the spec: \<^verbatim>\<open>TranslationBuffer::Add\<close> and \<^verbatim>\<open>TranslationIterator::Next\<close>
  are declared in the header and defined elsewhere. The buffer is an append-only sequence
  of opcodes and operands, read back by a forward-only iterator; the buffer is modelled as
  the list of the values added, and their encoding in bytes is left out.
\<close>

type_synonym TranslationBuffer = "int list"

definition CurrentIndex :: "TranslationBuffer \<Rightarrow> nat" where
  "CurrentIndex contents = length contents"

definition Add :: "TranslationBuffer \<Rightarrow> int \<Rightarrow> TranslationBuffer" where
  "Add contents v = contents @ [v]"

text \<open>
  The constructor \<^verbatim>\<open>Translation::Translation\<close>: the buffer after the three calls of
  \<^verbatim>\<open>Add\<close>, and the member \<^verbatim>\<open>index_\<close>.
\<close>

definition Translation :: "TranslationBuffer \<Rightarrow> int \<Rightarrow> int \<Rightarrow> TranslationBuffer \<times> nat" where
  "Translation buffer frame_count jsframe_count =
     (Add (Add (Add buffer (opcode_value BEGIN)) frame_count) jsframe_count,
      CurrentIndex buffer)"

text \<open>
  Modelled from the spec: the commands of \<^verbatim>\<open>class Translation\<close> are declared in the
  header and defined elsewhere. Each command appends its opcode and then its operands, in
  the order of its declared parameters. (\<^verbatim>\<open>StoreArgumentsObject\<close> is declared too; the
  opcode list has no opcode of its own for it and the spec does not describe it, so it is
  not modelled.)
\<close>

definition BeginJSFrame :: "TranslationBuffer \<Rightarrow> int \<Rightarrow> int \<Rightarrow> int \<Rightarrow> TranslationBuffer" where
  "BeginJSFrame buffer node_id literal_id height =
     Add (Add (Add (Add buffer (opcode_value JS_FRAME)) node_id) literal_id) height"

definition BeginInterpretedFrame :: "TranslationBuffer \<Rightarrow> int \<Rightarrow> int \<Rightarrow> int \<Rightarrow> TranslationBuffer" where
  "BeginInterpretedFrame buffer bytecode_offset literal_id height =
     Add (Add (Add (Add buffer (opcode_value INTERPRETED_FRAME)) bytecode_offset) literal_id) height"

definition BeginCompiledStubFrame :: "TranslationBuffer \<Rightarrow> int \<Rightarrow> TranslationBuffer" where
  "BeginCompiledStubFrame buffer height = Add (Add buffer (opcode_value COMPILED_STUB_FRAME)) height"

definition BeginArgumentsAdaptorFrame :: "TranslationBuffer \<Rightarrow> int \<Rightarrow> int \<Rightarrow> TranslationBuffer" where
  "BeginArgumentsAdaptorFrame buffer literal_id height =
     Add (Add (Add buffer (opcode_value ARGUMENTS_ADAPTOR_FRAME)) literal_id) height"

definition BeginConstructStubFrame :: "TranslationBuffer \<Rightarrow> int \<Rightarrow> int \<Rightarrow> TranslationBuffer" where
  "BeginConstructStubFrame buffer literal_id height =
     Add (Add (Add buffer (opcode_value CONSTRUCT_STUB_FRAME)) literal_id) height"

definition BeginGetterStubFrame :: "TranslationBuffer \<Rightarrow> int \<Rightarrow> TranslationBuffer" where
  "BeginGetterStubFrame buffer literal_id = Add (Add buffer (opcode_value GETTER_STUB_FRAME)) literal_id"

definition BeginSetterStubFrame :: "TranslationBuffer \<Rightarrow> int \<Rightarrow> TranslationBuffer" where
  "BeginSetterStubFrame buffer literal_id = Add (Add buffer (opcode_value SETTER_STUB_FRAME)) literal_id"

definition BeginArgumentsObject :: "TranslationBuffer \<Rightarrow> int \<Rightarrow> TranslationBuffer" where
  "BeginArgumentsObject buffer args_length = Add (Add buffer (opcode_value ARGUMENTS_OBJECT)) args_length"

definition BeginCapturedObject :: "TranslationBuffer \<Rightarrow> int \<Rightarrow> TranslationBuffer" where
  "BeginCapturedObject buffer len = Add (Add buffer (opcode_value CAPTURED_OBJECT)) len"

definition DuplicateObject :: "TranslationBuffer \<Rightarrow> int \<Rightarrow> TranslationBuffer" where
  "DuplicateObject buffer object_index = Add (Add buffer (opcode_value DUPLICATED_OBJECT)) object_index"

definition StoreRegister :: "TranslationBuffer \<Rightarrow> int \<Rightarrow> TranslationBuffer" where
  "StoreRegister buffer reg = Add (Add buffer (opcode_value REGISTER)) reg"

definition StoreInt32Register :: "TranslationBuffer \<Rightarrow> int \<Rightarrow> TranslationBuffer" where
  "StoreInt32Register buffer reg = Add (Add buffer (opcode_value INT32_REGISTER)) reg"

definition StoreUint32Register :: "TranslationBuffer \<Rightarrow> int \<Rightarrow> TranslationBuffer" where
  "StoreUint32Register buffer reg = Add (Add buffer (opcode_value UINT32_REGISTER)) reg"

definition StoreBoolRegister :: "TranslationBuffer \<Rightarrow> int \<Rightarrow> TranslationBuffer" where
  "StoreBoolRegister buffer reg = Add (Add buffer (opcode_value BOOL_REGISTER)) reg"

definition StoreDoubleRegister :: "TranslationBuffer \<Rightarrow> int \<Rightarrow> TranslationBuffer" where
  "StoreDoubleRegister buffer reg = Add (Add buffer (opcode_value DOUBLE_REGISTER)) reg"

definition StoreStackSlot :: "TranslationBuffer \<Rightarrow> int \<Rightarrow> TranslationBuffer" where
  "StoreStackSlot buffer index = Add (Add buffer (opcode_value STACK_SLOT)) index"

definition StoreInt32StackSlot :: "TranslationBuffer \<Rightarrow> int \<Rightarrow> TranslationBuffer" where
  "StoreInt32StackSlot buffer index = Add (Add buffer (opcode_value INT32_STACK_SLOT)) index"

definition StoreUint32StackSlot :: "TranslationBuffer \<Rightarrow> int \<Rightarrow> TranslationBuffer" where
  "StoreUint32StackSlot buffer index = Add (Add buffer (opcode_value UINT32_STACK_SLOT)) index"

definition StoreBoolStackSlot :: "TranslationBuffer \<Rightarrow> int \<Rightarrow> TranslationBuffer" where
  "StoreBoolStackSlot buffer index = Add (Add buffer (opcode_value BOOL_STACK_SLOT)) index"

definition StoreDoubleStackSlot :: "TranslationBuffer \<Rightarrow> int \<Rightarrow> TranslationBuffer" where
  "StoreDoubleStackSlot buffer index = Add (Add buffer (opcode_value DOUBLE_STACK_SLOT)) index"

definition StoreLiteral :: "TranslationBuffer \<Rightarrow> int \<Rightarrow> TranslationBuffer" where
  "StoreLiteral buffer literal_id = Add (Add buffer (opcode_value LITERAL)) literal_id"

definition StoreJSFrameFunction :: "TranslationBuffer \<Rightarrow> TranslationBuffer" where
  "StoreJSFrameFunction buffer = Add buffer (opcode_value JS_FRAME_FUNCTION)"


text \<open>
  \<^verbatim>\<open>class TranslationIterator\<close>. Reading past the end of the buffer is the sign of a
  truncated stream, which the spec makes a fatal internal-consistency violation: \<open>Next\<close>
  then ends the run.
\<close>

datatype deopt_error =
  MalformedStream
  | StreamOrderingViolation
  | AllocationNotAllowed
  | AssertionFailed

record TranslationIterator =
  it_buffer :: "int list"
  it_index :: nat

definition HasNext :: "TranslationIterator \<Rightarrow> bool" where
  "HasNext it = (it_index it < length (it_buffer it))"

definition Next :: "TranslationIterator \<Rightarrow> deopt_error + (int \<times> TranslationIterator)" where
  "Next it =
     (if HasNext it then Inr (it_buffer it ! it_index it, it\<lparr>it_index := it_index it + 1\<rparr>)
      else Inl MalformedStream)"



section \<open>Translated values, frames and state (src/deoptimizer.h)\<close>

text \<open>
  An \<open>Object\<close> is what a logical value resolves to: a tagged word as it is found in a
  register, a stack slot or the literal array (a heap reference), a raw number, or the
  arguments marker of the isolate. Objects allocated by materialization are tagged words
  too, so that equality of objects is pointer equality.
\<close>

datatype Object =
  Tagged Address
  | Int32Number "32 word"
  | UInt32Number "32 word"
  | Boolean bool
  | DoubleNumber "64 word"
  | arguments_marker

text \<open>\<^verbatim>\<open>enum TranslatedValue::Kind\<close>\<close>

datatype Kind =
  kInvalid
  | kTagged
  | kInt32
  | kUInt32
  | kBoolBit
  | kDouble
  | kCapturedObject
  | kDuplicatedObject
  | kArgumentsObject

text \<open>
  \<^verbatim>\<open>class TranslatedValue\<close>. The members of the union are fields of their own; a
  constructor function sets the one of its kind. \<open>tv_value\<close> is the member \<^verbatim>\<open>value_\<close>
  (a \<^verbatim>\<open>MaybeHandle\<close>), \<open>tv_id\<close> and \<open>tv_length\<close> are the members of
  \<^verbatim>\<open>materialization_info_\<close>.
\<close>

record TranslatedValue =
  tv_kind :: Kind
  tv_value :: "Object option"
  tv_raw_literal :: "Object option"
  tv_uint32_value :: "32 word"
  tv_int32_value :: "32 word"
  tv_double_value :: "64 word"
  tv_id :: nat
  tv_length :: int

definition NewValue :: "Kind \<Rightarrow> TranslatedValue" where
  "NewValue k =
     \<lparr>tv_kind = k, tv_value = None, tv_raw_literal = None, tv_uint32_value = 0,
      tv_int32_value = 0, tv_double_value = 0, tv_id = 0, tv_length = 0\<rparr>"

definition NewArgumentsObject :: "int \<Rightarrow> nat \<Rightarrow> TranslatedValue" where
  "NewArgumentsObject len object_index =
     (NewValue kArgumentsObject)\<lparr>tv_id := object_index, tv_length := len\<rparr>"

definition NewDeferredObject :: "int \<Rightarrow> nat \<Rightarrow> TranslatedValue" where
  "NewDeferredObject len object_index =
     (NewValue kCapturedObject)\<lparr>tv_id := object_index, tv_length := len\<rparr>"

definition NewDuplicateObject :: "nat \<Rightarrow> TranslatedValue" where
  "NewDuplicateObject ident = (NewValue kDuplicatedObject)\<lparr>tv_id := ident\<rparr>"

definition NewDouble :: "64 word \<Rightarrow> TranslatedValue" where
  "NewDouble v = (NewValue kDouble)\<lparr>tv_double_value := v\<rparr>"

definition NewInt32 :: "32 word \<Rightarrow> TranslatedValue" where
  "NewInt32 v = (NewValue kInt32)\<lparr>tv_int32_value := v\<rparr>"

definition NewUInt32 :: "32 word \<Rightarrow> TranslatedValue" where
  "NewUInt32 v = (NewValue kUInt32)\<lparr>tv_uint32_value := v\<rparr>"

definition NewBool :: "32 word \<Rightarrow> TranslatedValue" where
  "NewBool v = (NewValue kBoolBit)\<lparr>tv_uint32_value := v\<rparr>"

definition NewTagged :: "Object \<Rightarrow> TranslatedValue" where
  "NewTagged literal = (NewValue kTagged)\<lparr>tv_raw_literal := Some literal\<rparr>"

definition NewInvalid :: TranslatedValue where
  "NewInvalid = NewValue kInvalid"

text \<open>
  Modelled from the spec: \<^verbatim>\<open>TranslatedValue::GetChildrenCount\<close> is declared in the
  header and defined elsewhere. A captured object and an arguments object carry the number
  of nested values that follow them; no other value has nested values.
\<close>

definition GetChildrenCount :: "TranslatedValue \<Rightarrow> int" where
  "GetChildrenCount v =
     (if tv_kind v = kCapturedObject \<or> tv_kind v = kArgumentsObject then tv_length v else 0)"

text \<open>
  Modelled from the spec: \<^verbatim>\<open>TranslatedValue::IsMaterializedObject\<close> is declared in the
  header and defined elsewhere. The deferred kinds are the captured object, the duplicated
  object and the arguments object.
\<close>

definition IsMaterializedObject :: "TranslatedValue \<Rightarrow> bool" where
  "IsMaterializedObject v =
     (tv_kind v = kCapturedObject \<or> tv_kind v = kDuplicatedObject \<or> tv_kind v = kArgumentsObject)"

text \<open>\<^verbatim>\<open>enum TranslatedFrame::Kind\<close> and \<^verbatim>\<open>class TranslatedFrame\<close>\<close>

datatype FrameKind =
  kFunction
  | kInterpretedFunction
  | kGetter
  | kSetter
  | kArgumentsAdaptor
  | kConstructStub
  | kCompiledStub
  | kInvalidFrame

record TranslatedFrame =
  tf_kind :: FrameKind
  tf_node_id :: "int option"
  tf_shared_info :: "Object option"
  tf_height :: int
  tf_values :: "TranslatedValue list"

text \<open>
  The constructor \<^verbatim>\<open>TranslatedFrame(kind, isolate, shared_info = nullptr, height = 0)\<close>,
  which sets \<^verbatim>\<open>node_id_\<close> to \<^verbatim>\<open>BailoutId::None()\<close>, and the constructor functions. Those
  that are only declared in the header are modelled from the spec: a frame carries its
  kind, its originating position, its height and its function metadata.
\<close>

definition NewFrame :: "FrameKind \<Rightarrow> Object option \<Rightarrow> int \<Rightarrow> TranslatedFrame" where
  "NewFrame k shared_info height =
     \<lparr>tf_kind = k, tf_node_id = None, tf_shared_info = shared_info, tf_height = height,
      tf_values = []\<rparr>"

definition JSFrame :: "int \<Rightarrow> Object \<Rightarrow> int \<Rightarrow> TranslatedFrame" where
  "JSFrame node_id shared_info height =
     (NewFrame kFunction (Some shared_info) height)\<lparr>tf_node_id := Some node_id\<rparr>"

definition InterpretedFrame :: "int \<Rightarrow> Object \<Rightarrow> int \<Rightarrow> TranslatedFrame" where
  "InterpretedFrame bytecode_offset shared_info height =
     (NewFrame kInterpretedFunction (Some shared_info) height)\<lparr>tf_node_id := Some bytecode_offset\<rparr>"

definition AccessorFrame :: "FrameKind \<Rightarrow> Object \<Rightarrow> TranslatedFrame" where
  "AccessorFrame k shared_info = NewFrame k (Some shared_info) 0"

definition ArgumentsAdaptorFrame :: "Object \<Rightarrow> int \<Rightarrow> TranslatedFrame" where
  "ArgumentsAdaptorFrame shared_info height = NewFrame kArgumentsAdaptor (Some shared_info) height"

definition ConstructStubFrame :: "Object \<Rightarrow> int \<Rightarrow> TranslatedFrame" where
  "ConstructStubFrame shared_info height = NewFrame kConstructStub (Some shared_info) height"

definition CompiledStubFrame :: "int \<Rightarrow> TranslatedFrame" where
  "CompiledStubFrame height = NewFrame kCompiledStub None height"

definition InvalidFrame :: TranslatedFrame where
  "InvalidFrame = NewFrame kInvalidFrame None 0"

text \<open>
  \<^verbatim>\<open>class TranslatedState\<close>. An \<^verbatim>\<open>ObjectPosition\<close> is the pair of its frame index and
  its value index.
\<close>

type_synonym ObjectPosition = "nat \<times> nat"

record TranslatedState =
  frames :: "TranslatedFrame list"
  object_positions :: "ObjectPosition list"
  stack_frame_pointer :: Address
  has_adapted_arguments :: bool

definition NewTranslatedState :: TranslatedState where
  "NewTranslatedState =
     \<lparr>frames = [], object_positions = [], stack_frame_pointer = 0,
      has_adapted_arguments = False\<rparr>"

text \<open>
  The input of value resolution: the register snapshot (\<^verbatim>\<open>class RegisterValues\<close>), the
  stack slots of the input frame by their slot index, the function slot of the frame and
  the literal array of the optimized code. \<^verbatim>\<open>TranslatedFrame::GetValueCount\<close> is declared
  in the header and defined elsewhere; the number of values of a frame is the field
  \<open>value_count\<close>.
\<close>

record deopt_input =
  registers :: "int \<Rightarrow> nat"
  double_registers :: "int \<Rightarrow> 64 word"
  stack_slots :: "int \<Rightarrow> nat"
  double_stack_slots :: "int \<Rightarrow> 64 word"
  function_slot :: nat
  literal_array :: "Object list"
  value_count :: "TranslatedFrame \<Rightarrow> int"

definition literal_at :: "deopt_input \<Rightarrow> int \<Rightarrow> deopt_error + Object" where
  "literal_at input i =
     (if 0 \<le> i \<and> nat i < length (literal_array input) then Inr (literal_array input ! nat i)
      else Inl MalformedStream)"

text \<open>
  Modelled from the spec: \<^verbatim>\<open>TranslatedState::CreateNextTranslatedFrame\<close> is declared in
  the header and defined elsewhere. It reads one begin-frame opcode and its operands (the
  originating position, the literal that holds the function metadata, the height) and
  builds the frame of that kind; any other opcode is a stream consistency violation.
\<close>

definition CreateNextTranslatedFrame ::
  "TranslationIterator \<Rightarrow> deopt_input \<Rightarrow> deopt_error + (TranslatedFrame \<times> TranslationIterator)" where
  "CreateNextTranslatedFrame it input =
     (case Next it of Inl e \<Rightarrow> Inl e | Inr (v, it) \<Rightarrow>
      (case opcode_of v of
         Some JS_FRAME \<Rightarrow>
           (case Next it of Inl e \<Rightarrow> Inl e | Inr (node_id, it) \<Rightarrow>
            (case Next it of Inl e \<Rightarrow> Inl e | Inr (literal_id, it) \<Rightarrow>
             (case literal_at input literal_id of Inl e \<Rightarrow> Inl e | Inr shared_info \<Rightarrow>
              (case Next it of Inl e \<Rightarrow> Inl e | Inr (height, it) \<Rightarrow>
                 Inr (JSFrame node_id shared_info height, it)))))
       | Some INTERPRETED_FRAME \<Rightarrow>
           (case Next it of Inl e \<Rightarrow> Inl e | Inr (bytecode_offset, it) \<Rightarrow>
            (case Next it of Inl e \<Rightarrow> Inl e | Inr (literal_id, it) \<Rightarrow>
             (case literal_at input literal_id of Inl e \<Rightarrow> Inl e | Inr shared_info \<Rightarrow>
              (case Next it of Inl e \<Rightarrow> Inl e | Inr (height, it) \<Rightarrow>
                 Inr (InterpretedFrame bytecode_offset shared_info height, it)))))
       | Some ARGUMENTS_ADAPTOR_FRAME \<Rightarrow>
           (case Next it of Inl e \<Rightarrow> Inl e | Inr (literal_id, it) \<Rightarrow>
            (case literal_at input literal_id of Inl e \<Rightarrow> Inl e | Inr shared_info \<Rightarrow>
             (case Next it of Inl e \<Rightarrow> Inl e | Inr (height, it) \<Rightarrow>
                Inr (ArgumentsAdaptorFrame shared_info height, it))))
       | Some CONSTRUCT_STUB_FRAME \<Rightarrow>
           (case Next it of Inl e \<Rightarrow> Inl e | Inr (literal_id, it) \<Rightarrow>
            (case literal_at input literal_id of Inl e \<Rightarrow> Inl e | Inr shared_info \<Rightarrow>
             (case Next it of Inl e \<Rightarrow> Inl e | Inr (height, it) \<Rightarrow>
                Inr (ConstructStubFrame shared_info height, it))))
       | Some GETTER_STUB_FRAME \<Rightarrow>
           (case Next it of Inl e \<Rightarrow> Inl e | Inr (literal_id, it) \<Rightarrow>
            (case literal_at input literal_id of Inl e \<Rightarrow> Inl e | Inr shared_info \<Rightarrow>
               Inr (AccessorFrame kGetter shared_info, it)))
       | Some SETTER_STUB_FRAME \<Rightarrow>
           (case Next it of Inl e \<Rightarrow> Inl e | Inr (literal_id, it) \<Rightarrow>
            (case literal_at input literal_id of Inl e \<Rightarrow> Inl e | Inr shared_info \<Rightarrow>
               Inr (AccessorFrame kSetter shared_info, it)))
       | Some COMPILED_STUB_FRAME \<Rightarrow>
           (case Next it of Inl e \<Rightarrow> Inl e | Inr (height, it) \<Rightarrow>
              Inr (CompiledStubFrame height, it))
       | _ \<Rightarrow> Inl MalformedStream))"

text \<open>
  Modelled from the spec: \<^verbatim>\<open>TranslatedState::CreateNextTranslatedValue\<close> is declared in
  the header and defined elsewhere. Given one opcode, the input frame and the register
  snapshot it produces exactly one value. The numeric, boolean and tagged cases read the
  indicated register or stack slot at the indicated width; the literal case indexes the
  literal array. A captured object and an arguments object become placeholders that carry
  their length and the next free object id, and their position is recorded under that id.
  A duplicate object names the id of an object that has already appeared; an id that has
  not appeared yet is a stream-ordering violation and ends the run. A begin-frame opcode
  in the place of a value is a stream consistency violation.
\<close>

definition CreateNextTranslatedValue ::
  "nat \<Rightarrow> nat \<Rightarrow> TranslationIterator \<Rightarrow> deopt_input \<Rightarrow> ObjectPosition list
     \<Rightarrow> deopt_error + (TranslatedValue \<times> TranslationIterator \<times> ObjectPosition list)" where
  "CreateNextTranslatedValue frame_index value_index it input positions =
     (case Next it of Inl e \<Rightarrow> Inl e | Inr (v, it) \<Rightarrow>
      (case opcode_of v of
         None \<Rightarrow> Inl MalformedStream
       | Some BEGIN \<Rightarrow> Inl MalformedStream
       | Some JS_FRAME \<Rightarrow> Inl MalformedStream
       | Some INTERPRETED_FRAME \<Rightarrow> Inl MalformedStream
       | Some CONSTRUCT_STUB_FRAME \<Rightarrow> Inl MalformedStream
       | Some GETTER_STUB_FRAME \<Rightarrow> Inl MalformedStream
       | Some SETTER_STUB_FRAME \<Rightarrow> Inl MalformedStream
       | Some ARGUMENTS_ADAPTOR_FRAME \<Rightarrow> Inl MalformedStream
       | Some COMPILED_STUB_FRAME \<Rightarrow> Inl MalformedStream
       | Some DUPLICATED_OBJECT \<Rightarrow>
           (case Next it of Inl e \<Rightarrow> Inl e | Inr (object_id, it) \<Rightarrow>
              if 0 \<le> object_id \<and> nat object_id < length positions
              then Inr (NewDuplicateObject (nat object_id), it, positions)
              else Inl StreamOrderingViolation)
       | Some ARGUMENTS_OBJECT \<Rightarrow>
           (case Next it of Inl e \<Rightarrow> Inl e | Inr (arg_count, it) \<Rightarrow>
              Inr (NewArgumentsObject arg_count (length positions), it,
                   positions @ [(frame_index, value_index)]))
       | Some CAPTURED_OBJECT \<Rightarrow>
           (case Next it of Inl e \<Rightarrow> Inl e | Inr (field_count, it) \<Rightarrow>
              Inr (NewDeferredObject field_count (length positions), it,
                   positions @ [(frame_index, value_index)]))
       | Some REGISTER \<Rightarrow>
           (case Next it of Inl e \<Rightarrow> Inl e | Inr (input_reg, it) \<Rightarrow>
              Inr (NewTagged (Tagged (registers input input_reg)), it, positions))
       | Some INT32_REGISTER \<Rightarrow>
           (case Next it of Inl e \<Rightarrow> Inl e | Inr (input_reg, it) \<Rightarrow>
              Inr (NewInt32 (word_of_nat (registers input input_reg)), it, positions))
       | Some UINT32_REGISTER \<Rightarrow>
           (case Next it of Inl e \<Rightarrow> Inl e | Inr (input_reg, it) \<Rightarrow>
              Inr (NewUInt32 (word_of_nat (registers input input_reg)), it, positions))
       | Some BOOL_REGISTER \<Rightarrow>
           (case Next it of Inl e \<Rightarrow> Inl e | Inr (input_reg, it) \<Rightarrow>
              Inr (NewBool (word_of_nat (registers input input_reg)), it, positions))
       | Some DOUBLE_REGISTER \<Rightarrow>
           (case Next it of Inl e \<Rightarrow> Inl e | Inr (input_reg, it) \<Rightarrow>
              Inr (NewDouble (double_registers input input_reg), it, positions))
       | Some STACK_SLOT \<Rightarrow>
           (case Next it of Inl e \<Rightarrow> Inl e | Inr (slot, it) \<Rightarrow>
              Inr (NewTagged (Tagged (stack_slots input slot)), it, positions))
       | Some INT32_STACK_SLOT \<Rightarrow>
           (case Next it of Inl e \<Rightarrow> Inl e | Inr (slot, it) \<Rightarrow>
              Inr (NewInt32 (word_of_nat (stack_slots input slot)), it, positions))
       | Some UINT32_STACK_SLOT \<Rightarrow>
           (case Next it of Inl e \<Rightarrow> Inl e | Inr (slot, it) \<Rightarrow>
              Inr (NewUInt32 (word_of_nat (stack_slots input slot)), it, positions))
       | Some BOOL_STACK_SLOT \<Rightarrow>
           (case Next it of Inl e \<Rightarrow> Inl e | Inr (slot, it) \<Rightarrow>
              Inr (NewBool (word_of_nat (stack_slots input slot)), it, positions))
       | Some DOUBLE_STACK_SLOT \<Rightarrow>
           (case Next it of Inl e \<Rightarrow> Inl e | Inr (slot, it) \<Rightarrow>
              Inr (NewDouble (double_stack_slots input slot), it, positions))
       | Some LITERAL \<Rightarrow>
           (case Next it of Inl e \<Rightarrow> Inl e | Inr (literal_index, it) \<Rightarrow>
            (case literal_at input literal_index of Inl e \<Rightarrow> Inl e | Inr literal \<Rightarrow>
               Inr (NewTagged literal, it, positions)))
       | Some JS_FRAME_FUNCTION \<Rightarrow>
           Inr (NewTagged (Tagged (function_slot input)), it, positions)))"

text \<open>\<^verbatim>\<open>void TranslatedFrame::Add(const TranslatedValue& value)\<close>, on the last frame.\<close>

definition Add_value :: "TranslatedState \<Rightarrow> TranslatedValue \<Rightarrow> TranslatedState" where
  "Add_value st v =
     st\<lparr>frames := butlast (frames st)
           @ [(last (frames st))\<lparr>tf_values := tf_values (last (frames st)) @ [v]\<rparr>]\<rparr>"

text \<open>
  Modelled from the spec: \<^verbatim>\<open>TranslatedState::Init\<close> is declared in the header and
  defined elsewhere. It reads the stream header (the opcode \<^verbatim>\<open>BEGIN\<close>, the frame count and
  the JS-frame count) and then, for each frame, the begin-frame opcode and the values of
  the frame. The nested values of a captured object or an arguments object follow it in
  depth-first order as entries of the same frame: \<open>unwind\<close> and \<open>read_values\<close> keep the
  number of values still to be read at each nesting level.
\<close>

fun unwind :: "int \<Rightarrow> int list \<Rightarrow> int \<times> int list" where
  "unwind values_to_process [] = (values_to_process, [])"
| "unwind values_to_process (n # nested_counts) =
     (if values_to_process = 0 then unwind n nested_counts
      else (values_to_process, n # nested_counts))"

function read_values ::
  "deopt_input \<Rightarrow> nat \<Rightarrow> int \<Rightarrow> int list \<Rightarrow> TranslationIterator \<Rightarrow> TranslatedState
     \<Rightarrow> deopt_error + (TranslationIterator \<times> TranslatedState)" where
  "read_values input i values_to_process nested_counts it st =
     (if 0 < values_to_process \<or> nested_counts \<noteq> [] then
        (case CreateNextTranslatedValue i (length (tf_values (last (frames st)))) it input
                (object_positions st) of
           Inl e \<Rightarrow> Inl e
         | Inr (v, it', positions) \<Rightarrow>
             (if 0 < GetChildrenCount v then
                read_values input i (GetChildrenCount v)
                  ((values_to_process - 1) # nested_counts) it'
                  ((Add_value st v)\<lparr>object_positions := positions\<rparr>)
              else
                read_values input i (fst (unwind (values_to_process - 1) nested_counts))
                  (snd (unwind (values_to_process - 1) nested_counts)) it'
                  ((Add_value st v)\<lparr>object_positions := positions\<rparr>)))
      else Inr (it, st))"
  by pat_completeness auto
termination
  by (relation "measure (\<lambda>(input, i, n, nested, it, st). length (it_buffer it) - it_index it)")
     (auto simp: CreateNextTranslatedValue_def Next_def HasNext_def
        split: sum.splits option.splits Opcode.splits if_splits prod.splits)

text \<open>
  The loop over the frames, \<^verbatim>\<open>for (int i = 0; i < count; i++)\<close>; the first argument is
  the number of frames still to be read.
\<close>

fun read_frames ::
  "nat \<Rightarrow> nat \<Rightarrow> deopt_input \<Rightarrow> TranslationIterator \<Rightarrow> TranslatedState
     \<Rightarrow> deopt_error + (TranslationIterator \<times> TranslatedState)" where
  "read_frames 0 i input it st = Inr (it, st)"
| "read_frames (Suc k) i input it st =
     (case CreateNextTranslatedFrame it input of
        Inl e \<Rightarrow> Inl e
      | Inr (frame, it') \<Rightarrow>
          (case read_values input i (value_count input frame) [] it'
                  (st\<lparr>frames := frames st @ [frame]\<rparr>) of
             Inl e \<Rightarrow> Inl e
           | Inr (it'', st') \<Rightarrow> read_frames k (i + 1) input it'' st'))"

definition Init :: "deopt_input \<Rightarrow> TranslationIterator \<Rightarrow> deopt_error + TranslatedState" where
  "Init input it =
     (case Next it of Inl e \<Rightarrow> Inl e | Inr (v, it) \<Rightarrow>
        if opcode_of v \<noteq> Some BEGIN then Inl MalformedStream
        else
          (case Next it of Inl e \<Rightarrow> Inl e | Inr (count, it) \<Rightarrow>
           (case Next it of Inl e \<Rightarrow> Inl e | Inr (jsframe_count, it) \<Rightarrow>
            (case read_frames (nat count) 0 input it NewTranslatedState of
               Inl e \<Rightarrow> Inl e
             | Inr (it, st) \<Rightarrow>
                 if \<not> HasNext it then Inr st
                 else (case Next it of Inl e \<Rightarrow> Inl e | Inr (v, it) \<Rightarrow>
                         if opcode_of v = Some BEGIN then Inr st else Inl MalformedStream)))))"

declare read_values.simps [simp del]

section \<open>Materialization (src/deoptimizer.h)\<close>

text \<open>
  The part of the isolate that materialization works on: the heap (the next free address
  and the fields of the objects that materialization has allocated), the allocation guard
  (\<^verbatim>\<open>DisallowHeapAllocation\<close>, \<^verbatim>\<open>AllowHeapAllocation::IsAllowed\<close>), and the
  \<^verbatim>\<open>MaterializedObjectStore\<close>, which keeps for a frame pointer the objects materialized
  for the frame, by object id.
\<close>

record Isolate =
  next_address :: Address
  objects :: "Address \<Rightarrow> Object list option"
  allocation_allowed :: bool
  materialized_objects :: "Address \<Rightarrow> Object list option"

text \<open>
  Modelled from the spec: the member functions of \<^verbatim>\<open>class MaterializedObjectStore\<close> are
  declared in the header and defined elsewhere. The table is keyed by the physical frame
  pointer; an entry is created on the first materialization of a frame, consulted on every
  later deoptimization of that frame, and removed when the frame is popped.
\<close>

definition MaterializedObjectStore_Get :: "Isolate \<Rightarrow> Address \<Rightarrow> Object list option" where
  "MaterializedObjectStore_Get isolate fp = materialized_objects isolate fp"

definition MaterializedObjectStore_Set :: "Isolate \<Rightarrow> Address \<Rightarrow> Object list \<Rightarrow> Isolate" where
  "MaterializedObjectStore_Set isolate fp materialized =
     isolate\<lparr>materialized_objects := (materialized_objects isolate)(fp := Some materialized)\<rparr>"

definition MaterializedObjectStore_Remove :: "Isolate \<Rightarrow> Address \<Rightarrow> bool \<times> Isolate" where
  "MaterializedObjectStore_Remove isolate fp =
     (materialized_objects isolate fp \<noteq> None,
      isolate\<lparr>materialized_objects := (materialized_objects isolate)(fp := None)\<rparr>)"

text \<open>Reading and writing the value at an object position.\<close>

definition valid_position :: "TranslatedState \<Rightarrow> ObjectPosition \<Rightarrow> bool" where
  "valid_position st p =
     (fst p < length (frames st) \<and> snd p < length (tf_values (frames st ! fst p)))"

definition value_at :: "TranslatedState \<Rightarrow> ObjectPosition \<Rightarrow> TranslatedValue" where
  "value_at st p = tf_values (frames st ! fst p) ! snd p"

definition set_value_at :: "TranslatedState \<Rightarrow> ObjectPosition \<Rightarrow> Object \<Rightarrow> TranslatedState" where
  "set_value_at st p obj =
     st\<lparr>frames := (frames st)
          [fst p := (frames st ! fst p)
             \<lparr>tf_values := (tf_values (frames st ! fst p))
                [snd p := (value_at st p)\<lparr>tv_value := Some obj\<rparr>]\<rparr>]\<rparr>"

definition all_positions :: "TranslatedState \<Rightarrow> ObjectPosition list" where
  "all_positions st =
     concat (map (\<lambda>f. map (Pair f) [0..<length (tf_values (frames st ! f))])
               [0..<length (frames st)])"

text \<open>
  Modelled from the spec: \<^verbatim>\<open>TranslatedValue::Handlify\<close> and
  \<^verbatim>\<open>TranslatedFrame::Handlify\<close> are declared in the header and defined elsewhere.
  Handlification converts the raw pointers to handles: the raw literal of a tagged value
  becomes its value, and the raw literal is cleared.
\<close>

definition Handlify_value :: "TranslatedValue \<Rightarrow> TranslatedValue" where
  "Handlify_value v =
     (if tv_kind v = kTagged then v\<lparr>tv_value := tv_raw_literal v, tv_raw_literal := None\<rparr>
      else v)"

definition Handlify_frame :: "TranslatedFrame \<Rightarrow> TranslatedFrame" where
  "Handlify_frame frame = frame\<lparr>tf_values := map Handlify_value (tf_values frame)\<rparr>"

text \<open>
  Modelled from the spec: \<^verbatim>\<open>TranslatedState::UpdateFromPreviouslyMaterializedObjects\<close>
  is declared in the header and defined elsewhere. If the frame was materialized before and
  is still live, the objects kept in the table for its frame pointer are put back at their
  object positions, so that they are reused instead of allocated again. A table entry of
  the wrong length is a bookkeeping error.
\<close>

fun inject_previous :: "TranslatedState \<Rightarrow> Object list \<Rightarrow> nat list \<Rightarrow> TranslatedState" where
  "inject_previous st previously_materialized_objects [] = st"
| "inject_previous st previously_materialized_objects (i # is) =
     inject_previous
       (if previously_materialized_objects ! i \<noteq> arguments_marker
        then set_value_at st (object_positions st ! i) (previously_materialized_objects ! i)
        else st)
       previously_materialized_objects is"

definition UpdateFromPreviouslyMaterializedObjects ::
  "TranslatedState \<Rightarrow> Isolate \<Rightarrow> deopt_error + TranslatedState" where
  "UpdateFromPreviouslyMaterializedObjects st isolate =
     (case MaterializedObjectStore_Get isolate (stack_frame_pointer st) of
        None \<Rightarrow> Inr st
      | Some previously_materialized_objects \<Rightarrow>
          if length previously_materialized_objects \<noteq> length (object_positions st)
          then Inl AssertionFailed
          else Inr (inject_previous st previously_materialized_objects
                      [0..<length (object_positions st)]))"

text \<open>
  Modelled from the spec: \<^verbatim>\<open>TranslatedState::Prepare\<close> is declared in the header and
  defined elsewhere. It is the hand-off from resolution to materialization: all raw
  pointers are converted to handles, the frame pointer that keys the table is recorded,
  and previously materialized objects are looked up.
\<close>

definition Prepare ::
  "TranslatedState \<Rightarrow> Isolate \<Rightarrow> bool \<Rightarrow> Address \<Rightarrow> deopt_error + TranslatedState" where
  "Prepare st isolate adapted fp =
     UpdateFromPreviouslyMaterializedObjects
       (st\<lparr>frames := map Handlify_frame (frames st),
           has_adapted_arguments := adapted,
           stack_frame_pointer := fp\<rparr>)
       isolate"

text \<open>
  Modelled from the spec: \<^verbatim>\<open>TranslatedValue::MaterializeSimple\<close> and
  \<^verbatim>\<open>TranslatedValue::GetRawValue\<close> are declared in the header and defined elsewhere. A
  value is either immediately readable without allocation (a tagged value, a raw int32,
  uint32, bool bit or double), or it is of one of the three deferred kinds.
  \<open>GetRawValue\<close> is the allocation-less getter: it returns the value if there is one, and
  the arguments marker if allocation would be necessary to get the value.
\<close>

definition simple_object :: "TranslatedValue \<Rightarrow> Object option" where
  "simple_object v =
     (case tv_kind v of
        kTagged \<Rightarrow> tv_raw_literal v
      | kInt32 \<Rightarrow> Some (Int32Number (tv_int32_value v))
      | kUInt32 \<Rightarrow> Some (UInt32Number (tv_uint32_value v))
      | kBoolBit \<Rightarrow> Some (Boolean (tv_uint32_value v \<noteq> 0))
      | kDouble \<Rightarrow> Some (DoubleNumber (tv_double_value v))
      | _ \<Rightarrow> None)"

definition GetRawValue :: "TranslatedValue \<Rightarrow> Object" where
  "GetRawValue v =
     (case tv_value v of
        Some obj \<Rightarrow> obj
      | None \<Rightarrow> (case simple_object v of Some obj \<Rightarrow> obj | None \<Rightarrow> arguments_marker))"

text \<open>
  Modelled from the spec: \<^verbatim>\<open>TranslatedState::MaterializeAt\<close> is declared in the header
  and defined elsewhere. Materialization visits the values of a frame in the depth-first
  order of the stream. The nested values of an object follow it, so the objects whose
  nested values are still to come are kept on a stack, each with the number of nested
  values outstanding; \<open>store_field\<close> makes a materialized value the next field of the
  object on top, and \<open>push_children\<close> opens an object with nested values.
\<close>

type_synonym pending = "(Address option \<times> int) list"

definition store_field :: "Isolate \<Rightarrow> pending \<Rightarrow> Object \<Rightarrow> Isolate \<times> pending" where
  "store_field isolate stack obj =
     (case stack of
        [] \<Rightarrow> (isolate, [])
      | (parent, n) # rest \<Rightarrow>
          ((case parent of
              None \<Rightarrow> isolate
            | Some a \<Rightarrow>
                isolate\<lparr>objects := (objects isolate)
                  (a := Some ((case objects isolate a of None \<Rightarrow> [] | Some slots \<Rightarrow> slots) @ [obj]))\<rparr>),
           (if n - 1 \<le> 0 then rest else (parent, n - 1) # rest)))"

definition push_children :: "pending \<Rightarrow> Address option \<Rightarrow> int \<Rightarrow> pending" where
  "push_children stack parent n = (if 0 < n then (parent, n) # stack else stack)"

definition finish_value ::
  "TranslatedState \<Rightarrow> Isolate \<Rightarrow> pending \<Rightarrow> Object \<Rightarrow> Address option \<Rightarrow> int
     \<Rightarrow> TranslatedState \<times> Isolate \<times> pending" where
  "finish_value st isolate stack obj parent n =
     (st, fst (store_field isolate stack obj),
      push_children (snd (store_field isolate stack obj)) parent n)"

text \<open>
  The materialization of the value at one position:
  \<^item> a value that has been materialized before is kept, and its nested values are not
    stored again;
  \<^item> a value that is readable without allocation becomes its object;
  \<^item> the arguments-object placeholder is never itself allocated: it keeps the arguments
    marker and only stands for its nested values in the stream;
  \<^item> a captured object is allocated, and the nested values that follow become its fields;
  \<^item> a duplicate object resolves to the object instance already materialized for the
    object id it refers to; if there is none, the stream order is violated.
\<close>

definition MaterializeAt ::
  "TranslatedState \<Rightarrow> Isolate \<Rightarrow> pending \<Rightarrow> ObjectPosition
     \<Rightarrow> deopt_error + (TranslatedState \<times> Isolate \<times> pending)" where
  "MaterializeAt st isolate stack p =
     (if \<not> valid_position st p then Inl AssertionFailed
      else
        (case tv_value (value_at st p) of
           Some obj \<Rightarrow>
             Inr (finish_value st isolate stack obj None (GetChildrenCount (value_at st p)))
         | None \<Rightarrow>
             (case tv_kind (value_at st p) of
                kInvalid \<Rightarrow> Inl MalformedStream
              | kArgumentsObject \<Rightarrow>
                  Inr (finish_value (set_value_at st p arguments_marker) isolate stack
                         arguments_marker None (GetChildrenCount (value_at st p)))
              | kCapturedObject \<Rightarrow>
                  if \<not> allocation_allowed isolate then Inl AllocationNotAllowed
                  else
                    Inr (finish_value (set_value_at st p (Tagged (next_address isolate)))
                           (isolate\<lparr>next_address := next_address isolate + 1,
                                    objects := (objects isolate)(next_address isolate := Some [])\<rparr>)
                           stack (Tagged (next_address isolate)) (Some (next_address isolate))
                           (GetChildrenCount (value_at st p)))
              | kDuplicatedObject \<Rightarrow>
                  if \<not> tv_id (value_at st p) < length (object_positions st)
                  then Inl StreamOrderingViolation
                  else if \<not> valid_position st (object_positions st ! tv_id (value_at st p))
                  then Inl AssertionFailed
                  else
                    (case tv_value (value_at st (object_positions st ! tv_id (value_at st p))) of
                       None \<Rightarrow> Inl StreamOrderingViolation
                     | Some obj \<Rightarrow>
                         Inr (finish_value (set_value_at st p obj) isolate stack obj None 0))
              | _ \<Rightarrow>
                  (case simple_object (value_at st p) of
                     None \<Rightarrow> Inl AssertionFailed
                   | Some obj \<Rightarrow>
                       Inr (finish_value (set_value_at st p obj) isolate stack obj None 0)))))"

text \<open>
  Modelled from the spec: materialization is a second pass over every value of every frame
  of the state, run once all frames are built (\<^verbatim>\<open>Deoptimizer::MaterializeHeapObjects\<close>
  is declared in the header and defined elsewhere). An object whose nested values are
  missing at the end of the pass is a stream consistency violation.
\<close>

fun MaterializeAll ::
  "TranslatedState \<Rightarrow> Isolate \<Rightarrow> pending \<Rightarrow> ObjectPosition list
     \<Rightarrow> deopt_error + (TranslatedState \<times> Isolate \<times> pending)" where
  "MaterializeAll st isolate stack [] = Inr (st, isolate, stack)"
| "MaterializeAll st isolate stack (p # ps) =
     (case MaterializeAt st isolate stack p of
        Inl e \<Rightarrow> Inl e
      | Inr (st', isolate', stack') \<Rightarrow> MaterializeAll st' isolate' stack' ps)"

definition Materialize :: "TranslatedState \<Rightarrow> Isolate \<Rightarrow> deopt_error + (TranslatedState \<times> Isolate)" where
  "Materialize st isolate =
     (case MaterializeAll st isolate [] (all_positions st) of
        Inl e \<Rightarrow> Inl e
      | Inr (st', isolate', stack') \<Rightarrow>
          if stack' \<noteq> [] then Inl MalformedStream else Inr (st', isolate'))"

text \<open>
  Modelled from the spec: \<^verbatim>\<open>TranslatedState::MaterializeObjectAt\<close> and
  \<^verbatim>\<open>TranslatedValue::GetValue\<close> are declared in the header and defined elsewhere.
  \<open>GetValue\<close> yields the true value, and may allocate to do so: a value that has been
  materialized is returned as it is; a captured object or an arguments object is
  materialized at its object position together with the nested values that follow it; any
  other value is materialized in place.
\<close>

fun materialize_nested ::
  "TranslatedState \<Rightarrow> Isolate \<Rightarrow> pending \<Rightarrow> ObjectPosition list
     \<Rightarrow> deopt_error + (TranslatedState \<times> Isolate \<times> pending)" where
  "materialize_nested st isolate stack [] = Inr (st, isolate, stack)"
| "materialize_nested st isolate stack (p # ps) =
     (if stack = [] then Inr (st, isolate, stack)
      else
        (case MaterializeAt st isolate stack p of
           Inl e \<Rightarrow> Inl e
         | Inr (st', isolate', stack') \<Rightarrow> materialize_nested st' isolate' stack' ps))"




text \<open>
  Modelled from the spec: \<^verbatim>\<open>TranslatedState::StoreMaterializedValuesAndDeopt\<close> is
  declared in the header (store newly materialized values into the isolate) and defined
  elsewhere. The objects materialized for the frame are entered in the table under the
  frame pointer, each at its object id; an entry is created on the first materialization
  of the frame, and an existing entry keeps the objects it has. Values that are not
  materialized objects are entered as the arguments marker.
\<close>

definition materialized_values :: "TranslatedState \<Rightarrow> Object list" where
  "materialized_values st =
     map (\<lambda>i. GetRawValue (value_at st (object_positions st ! i)))
       [0..<length (object_positions st)]"

definition StoreMaterializedValuesAndDeopt ::
  "TranslatedState \<Rightarrow> Isolate \<Rightarrow> deopt_error + Isolate" where
  "StoreMaterializedValuesAndDeopt st isolate =
     (case MaterializedObjectStore_Get isolate (stack_frame_pointer st) of
        None \<Rightarrow>
          if list_ex (\<lambda>obj. obj \<noteq> arguments_marker) (materialized_values st)
          then Inr (MaterializedObjectStore_Set isolate (stack_frame_pointer st)
                      (materialized_values st))
          else Inr isolate
      | Some previously_materialized_objects \<Rightarrow>
          if length previously_materialized_objects \<noteq> length (object_positions st)
          then Inl AssertionFailed
          else
            Inr (MaterializedObjectStore_Set isolate (stack_frame_pointer st)
                   (map (\<lambda>i. if previously_materialized_objects ! i = arguments_marker
                              then materialized_values st ! i
                              else previously_materialized_objects ! i)
                      [0..<length (object_positions st)])))"


definition Deoptimizer_Grab :: "Isolate \<Rightarrow> Isolate" where
  "Deoptimizer_Grab isolate = isolate\<lparr>allocation_allowed := True\<rparr>"

definition MaterializeFrame ::
  "TranslatedState \<Rightarrow> Isolate \<Rightarrow> bool \<Rightarrow> Address \<Rightarrow> deopt_error + (TranslatedState \<times> Isolate)" where
  "MaterializeFrame st0 isolate adapted fp =
     (case Prepare st0 isolate adapted fp of
        Inl e \<Rightarrow> Inl e
      | Inr st \<Rightarrow>
          (case Materialize st isolate of
             Inl e \<Rightarrow> Inl e
           | Inr (st', isolate') \<Rightarrow>
               (case StoreMaterializedValuesAndDeopt st' isolate' of
                  Inl e \<Rightarrow> Inl e
                | Inr isolate'' \<Rightarrow> Inr (st', isolate''))))"

section \<open>Invoking a function (src/mips/macro-assembler-mips.cc)\<close>

text \<open>
  \<^verbatim>\<open>MacroAssembler::InvokePrologue\<close> emits the code that decides, when a function is
  invoked, whether the arguments adaptor is entered. A \<^verbatim>\<open>ParameterCount\<close> is an
  immediate or a register; \<open>count_value\<close> is the number it stands for when the emitted
  code runs. The model gives the path that the emitted code takes and the registers at
  the end of it. The \<^verbatim>\<open>DCHECK\<close>s state the contract with the calling code (counts in
  registers are in \<^verbatim>\<open>a0\<close> and \<^verbatim>\<open>a2\<close>); a call that breaks it has no result.
  \<^verbatim>\<open>SharedFunctionInfo::kDontAdaptArgumentsSentinel\<close> is not part of the sources at hand
  and is a parameter.
\<close>

type_synonym Register = nat

definition a1 :: Register where "a1 = 5"






section \<open>An example translation\<close>

text \<open>
  One JavaScript frame with six values: the function of the frame, a captured object with
  two nested values (a literal and a register), a duplicate of that object, and an int32
  register.
\<close>

definition example_input :: deopt_input where
  "example_input =
     \<lparr>registers = (\<lambda>r. 100 + nat r), double_registers = (\<lambda>r. 0),
      stack_slots = (\<lambda>s. 200 + nat s), double_stack_slots = (\<lambda>s. 0),
      function_slot = 77, literal_array = [Tagged 900, Tagged 901],
      value_count = (\<lambda>frame. tf_height frame + 1)\<rparr>"

definition example_translation :: TranslationBuffer where
  "example_translation =
     StoreInt32Register
       (DuplicateObject
          (StoreRegister
             (StoreLiteral
                (BeginCapturedObject
                   (StoreJSFrameFunction
                      (BeginJSFrame (fst (Translation [] 1 1)) 0 0 3))
                   2)
                1)
             4)
          0)
       5"

definition example_iterator :: "nat \<Rightarrow> TranslationIterator" where
  "example_iterator i = \<lparr>it_buffer = example_translation, it_index = i\<rparr>"

definition example_isolate :: Isolate where
  "example_isolate =
     \<lparr>next_address = 1000, objects = (\<lambda>a. None), allocation_allowed = True,
      materialized_objects = (\<lambda>fp. None)\<rparr>"

definition example_state :: TranslatedState where
  "example_state =
     \<lparr>frames =
        [(JSFrame 0 (Tagged 900) 3)
           \<lparr>tf_values :=
              [NewTagged (Tagged 77), NewDeferredObject 2 0, NewTagged (Tagged 901),
               NewTagged (Tagged 104), NewDuplicateObject 0, NewInt32 105]\<rparr>],
      object_positions = [(0, 1)], stack_frame_pointer = 0, has_adapted_arguments = False\<rparr>"



text \<open>
  A translation whose duplicate object refers to object id 0 although no object has
  appeared before it, and the state at the moment the duplicate is read.
\<close>

definition example_forward_reference :: TranslationBuffer where
  "example_forward_reference =
     DuplicateObject (StoreJSFrameFunction (BeginJSFrame (fst (Translation [] 1 1)) 0 0 1)) 0"

definition example_partial :: TranslatedState where
  "example_partial =
     NewTranslatedState
       \<lparr>frames := [(JSFrame 0 (Tagged 900) 1)\<lparr>tf_values := [NewTagged (Tagged 77)]\<rparr>]\<rparr>"



text \<open>
  The example frame materialized twice while it is live: the first materialization, and
  the second one on the isolate that the first one leaves.
\<close>

definition example_first :: "TranslatedState \<times> Isolate" where
  "example_first = projr (MaterializeFrame example_state example_isolate False 5000)"

definition example_second :: "TranslatedState \<times> Isolate" where
  "example_second = projr (MaterializeFrame example_state (snd example_first) False 5000)"






section \<open>Well-formed states\<close>

text \<open>
  The order of the depth-first walk on positions, and the bookkeeping invariant of a state:
  every captured object and every arguments object is recorded at its own object id, every
  recorded position holds such an object, and every duplicate object refers to an object
  id recorded for an earlier position.
\<close>

definition position_before :: "ObjectPosition \<Rightarrow> ObjectPosition \<Rightarrow> bool" where
  "position_before p q = (fst p < fst q \<or> (fst p = fst q \<and> snd p < snd q))"

definition is_object :: "TranslatedValue \<Rightarrow> bool" where
  "is_object v = (tv_kind v = kCapturedObject \<or> tv_kind v = kArgumentsObject)"

definition wf_value :: "TranslatedState \<Rightarrow> ObjectPosition \<Rightarrow> bool" where
  "wf_value st p =
     ((is_object (value_at st p) \<longrightarrow>
         tv_id (value_at st p) < length (object_positions st)
       \<and> object_positions st ! tv_id (value_at st p) = p)
    \<and> (tv_kind (value_at st p) = kDuplicatedObject \<longrightarrow>
         tv_id (value_at st p) < length (object_positions st)
       \<and> position_before (object_positions st ! tv_id (value_at st p)) p))"

definition wf_positions :: "TranslatedState \<Rightarrow> bool" where
  "wf_positions st =
     (list_all (wf_value st) (all_positions st)
    \<and> list_all (\<lambda>i. valid_position st (object_positions st ! i)
                   \<and> is_object (value_at st (object_positions st ! i))
                   \<and> tv_id (value_at st (object_positions st ! i)) = i)
         [0..<length (object_positions st)])"

text \<open>No value of the state holds a handle; tagged values hold their raw pointer.\<close>

definition raw_value :: "TranslatedValue \<Rightarrow> bool" where
  "raw_value v = (tv_value v = None \<and> (tv_kind v = kTagged \<longrightarrow> tv_raw_literal v \<noteq> None))"

definition all_raw :: "TranslatedState \<Rightarrow> bool" where
  "all_raw st = list_all (\<lambda>p. raw_value (value_at st p)) (all_positions st)"

text \<open>The values for which materialization allocates: captured objects without a value.\<close>

definition needs_allocation :: "TranslatedState \<Rightarrow> ObjectPosition \<Rightarrow> bool" where
  "needs_allocation st p =
     (tv_value (value_at st p) = None \<and> tv_kind (value_at st p) = kCapturedObject)"

text \<open>The position of the value that is added next to the last frame.\<close>

definition current_position :: "TranslatedState \<Rightarrow> ObjectPosition" where
  "current_position st = (length (frames st) - 1, length (tf_values (last (frames st))))"

text \<open>
  Two states have the same shape if they have the same positions and object positions and,
  at every position, values of the same kind, object id and length.
\<close>

definition same_fields :: "TranslatedValue \<Rightarrow> TranslatedValue \<Rightarrow> bool" where
  "same_fields v v' =
     (tv_kind v' = tv_kind v \<and> tv_id v' = tv_id v \<and> tv_length v' = tv_length v)"

definition same_shape :: "TranslatedState \<Rightarrow> TranslatedState \<Rightarrow> bool" where
  "same_shape st st' =
     (object_positions st' = object_positions st \<and> all_positions st' = all_positions st
      \<and> list_all (\<lambda>p. same_fields (value_at st p) (value_at st' p)) (all_positions st))"

text \<open>The state after handlification, before previously materialized objects are looked up.\<close>

definition handlified :: "TranslatedState \<Rightarrow> bool \<Rightarrow> Address \<Rightarrow> TranslatedState" where
  "handlified st adapted fp =
     st\<lparr>frames := map Handlify_frame (frames st), has_adapted_arguments := adapted,
        stack_frame_pointer := fp\<rparr>"

section \<open>Properties of the frame layout\<close>

lemmas frame_constants_defs =
  kCPSlotSize_def kFixedFrameSizeFromFp_def kFixedFrameSizeAboveFp_def kFixedFrameSize_def
  kExpressionsOffset_def kImplicitReceiverOffset_def kLengthOffset_def
  kAllocationSiteOffset_def kCodeOffset_def Construct_kFrameSize_def
  construct_frame_slots_def slot_below_fixed_def

text \<open>
  C8. The construct-stub frame consists of the standard fixed frame and exactly four more
  pointer-sized slots: the code slot, the allocation site, the argument length and the
  implicit receiver. They are the four slots directly below the standard fixed part, they
  are pairwise distinct, and the frame size is the standard fixed frame size plus four
  pointers, so that the implicit receiver is the lowest slot of the frame.
\<close>

theorem construct_frame_layout:
  assumes "0 < kPointerSize a"
  shows "Construct_kFrameSize a = kFixedFrameSize a + 4 * kPointerSize a
       \<and> construct_frame_slots a = map (slot_below_fixed a) [0, 1, 2, 3]
       \<and> length (construct_frame_slots a) = 4
       \<and> distinct (construct_frame_slots a)
       \<and> kImplicitReceiverOffset a = kFixedFrameSizeAboveFp a - Construct_kFrameSize a"
  using assms by (simp add: frame_constants_defs)

theorem construct_frame_layout_witness:
  "0 < kPointerSize ia32
   \<and> Construct_kFrameSize ia32 = 32
   \<and> kFixedFrameSize ia32 = 16
   \<and> construct_frame_slots ia32 = [-12, -16, -20, -24]
   \<and> distinct (construct_frame_slots ia32)"
  using construct_frame_layout [of ia32]
  by (simp add: frame_constants_defs ia32_def)

section \<open>Properties of the deoptimization notification\<close>

lemma VisitFrames_eq:
  "VisitFrames cont c it has = (has \<or> list_ex (\<lambda>frame. cont c (frame_pc frame)) it)"
  by (induction it arbitrary: has) auto

lemma IterateArchivedThreads_eq:
  "IterateArchivedThreads cont c threads has
     = (has \<or> list_ex (\<lambda>frame. cont c (frame_pc frame)) (concat threads))"
  by (induction threads arbitrary: has) (auto simp: VisitFrames_eq list_ex_iff)

lemma search_eq:
  "IterateArchivedThreads (code_contains isolate) (compiled_code d) (archived_threads isolate)
     (VisitFrames (code_contains isolate) (compiled_code d)
        (drop (materialize_advance d) (thread_frames isolate)) False)
   = remaining_activations isolate d"
  by (auto simp: IterateArchivedThreads_eq VisitFrames_eq remaining_activations_def
      searched_frames_def list_ex_iff)

text \<open>
  C9, as the code has it. A successful notification first materializes the heap objects and
  deletes the deoptimizer. For a lazy bailout it then returns: no code is replaced, nothing
  is evicted, the function is not deoptimized. Otherwise the remaining frames of the running
  thread and the frames of all archived threads are searched for activations of the
  optimized code. If there is none, the optimized code is evicted from the optimized-code map
  of the shared function info, and the function's code is replaced with the shared
  unoptimized code provided that the function still has the optimized code as its code; a
  function that has other code keeps it. If there is an activation, code and map are left as
  they are and the whole function is deoptimized.
\<close>

theorem notify_deoptimized:
  assumes "Runtime_NotifyDeoptimized isolate type_arg = Inr isolate'"
    and "current_deoptimizer isolate = Some d"
  shows "take 2 (drop (length (calls isolate)) (calls isolate'))
           = [MaterializeHeapObjects, DeleteDeoptimizer]
       \<and> (type_arg = LAZY \<longrightarrow>
            calls isolate' = calls isolate @ [MaterializeHeapObjects, DeleteDeoptimizer]
          \<and> function_code isolate' = function_code isolate
          \<and> optimized_code_map isolate' = optimized_code_map isolate)
       \<and> (type_arg \<noteq> LAZY \<and> \<not> remaining_activations isolate d \<longrightarrow>
            calls isolate' = calls isolate @ [MaterializeHeapObjects, DeleteDeoptimizer]
          \<and> function_code isolate' =
              (if function_code isolate (deopt_function d) = compiled_code d
               then (function_code isolate)
                      (deopt_function d := shared_code isolate (function_shared isolate (deopt_function d)))
               else function_code isolate)
          \<and> compiled_code d \<notin> optimized_code_map isolate' (function_shared isolate (deopt_function d)))
       \<and> (type_arg \<noteq> LAZY \<and> remaining_activations isolate d \<longrightarrow>
            calls isolate' = calls isolate
               @ [MaterializeHeapObjects, DeleteDeoptimizer, DeoptimizeFunction (deopt_function d)]
          \<and> function_code isolate' = function_code isolate
          \<and> optimized_code_map isolate' = optimized_code_map isolate)"
  using assms search_eq [of isolate d]
  by (auto simp: Runtime_NotifyDeoptimized_def Let_def
      split: list.splits if_splits option.splits)

theorem notify_deoptimized_witness:
  "(current_deoptimizer (example_runtime EAGER 5 []) = Some (example_deoptimizer EAGER)
    \<and> EAGER \<noteq> LAZY
    \<and> \<not> remaining_activations (example_runtime EAGER 5 []) (example_deoptimizer EAGER)
    \<and> \<not> isl (Runtime_NotifyDeoptimized (example_runtime EAGER 5 []) EAGER)
    \<and> calls (projr (Runtime_NotifyDeoptimized (example_runtime EAGER 5 []) EAGER))
         = [MaterializeHeapObjects, DeleteDeoptimizer]
    \<and> function_code (projr (Runtime_NotifyDeoptimized (example_runtime EAGER 5 []) EAGER)) 1 = 3
    \<and> 5 \<notin> optimized_code_map (projr (Runtime_NotifyDeoptimized (example_runtime EAGER 5 []) EAGER)) 2)
   \<and> (current_deoptimizer (example_runtime LAZY 5 []) = Some (example_deoptimizer LAZY)
    \<and> \<not> isl (Runtime_NotifyDeoptimized (example_runtime LAZY 5 []) LAZY)
    \<and> calls (projr (Runtime_NotifyDeoptimized (example_runtime LAZY 5 []) LAZY))
         = [MaterializeHeapObjects, DeleteDeoptimizer]
    \<and> function_code (projr (Runtime_NotifyDeoptimized (example_runtime LAZY 5 []) LAZY)) 1 = 5
    \<and> 5 \<in> optimized_code_map (projr (Runtime_NotifyDeoptimized (example_runtime LAZY 5 []) LAZY)) 2)
   \<and> (current_deoptimizer (example_runtime EAGER 5 [[\<lparr>frame_pc = 550, frame_function = Some 1, frame_context = 41\<rparr>]])
         = Some (example_deoptimizer EAGER)
    \<and> remaining_activations (example_runtime EAGER 5 [[\<lparr>frame_pc = 550, frame_function = Some 1, frame_context = 41\<rparr>]])
         (example_deoptimizer EAGER)
    \<and> \<not> isl (Runtime_NotifyDeoptimized
                (example_runtime EAGER 5 [[\<lparr>frame_pc = 550, frame_function = Some 1, frame_context = 41\<rparr>]]) EAGER)
    \<and> calls (projr (Runtime_NotifyDeoptimized
                (example_runtime EAGER 5 [[\<lparr>frame_pc = 550, frame_function = Some 1, frame_context = 41\<rparr>]]) EAGER))
         = [MaterializeHeapObjects, DeleteDeoptimizer, DeoptimizeFunction 1]
    \<and> function_code (projr (Runtime_NotifyDeoptimized
                (example_runtime EAGER 5 [[\<lparr>frame_pc = 550, frame_function = Some 1, frame_context = 41\<rparr>]]) EAGER)) 1 = 5)"
  (is "?none \<and> ?lazy \<and> ?some")
proof -
  have neq: "EAGER \<noteq> LAZY"
    by (simp add: EAGER_def LAZY_def)
  have ?none
  proof -
    obtain isolate' where run: "Runtime_NotifyDeoptimized (example_runtime EAGER 5 []) EAGER = Inr isolate'"
      by (simp add: Runtime_NotifyDeoptimized_def example_runtime_def example_deoptimizer_def
          EAGER_def LAZY_def)
    have cur: "current_deoptimizer (example_runtime EAGER 5 []) = Some (example_deoptimizer EAGER)"
      by (simp add: example_runtime_def)
    have none: "\<not> remaining_activations (example_runtime EAGER 5 []) (example_deoptimizer EAGER)"
      by (simp add: remaining_activations_def searched_frames_def example_runtime_def
          example_deoptimizer_def)
    from notify_deoptimized [OF run cur] none cur run neq show ?thesis
      by (simp add: example_runtime_def example_deoptimizer_def)
  qed
  moreover have ?lazy
  proof -
    obtain isolate' where run: "Runtime_NotifyDeoptimized (example_runtime LAZY 5 []) LAZY = Inr isolate'"
      by (simp add: Runtime_NotifyDeoptimized_def example_runtime_def example_deoptimizer_def)
    have cur: "current_deoptimizer (example_runtime LAZY 5 []) = Some (example_deoptimizer LAZY)"
      by (simp add: example_runtime_def)
    from notify_deoptimized [OF run cur] cur run show ?thesis
      by (simp add: example_runtime_def example_deoptimizer_def)
  qed
  moreover have ?some
  proof -
    let ?r = "example_runtime EAGER 5 [[\<lparr>frame_pc = 550, frame_function = Some 1, frame_context = 41\<rparr>]]"
    obtain isolate' where run: "Runtime_NotifyDeoptimized ?r EAGER = Inr isolate'"
      by (simp add: Runtime_NotifyDeoptimized_def example_runtime_def example_deoptimizer_def
          EAGER_def LAZY_def)
    have cur: "current_deoptimizer ?r = Some (example_deoptimizer EAGER)"
      by (simp add: example_runtime_def)
    have some: "remaining_activations ?r (example_deoptimizer EAGER)"
      by (simp add: remaining_activations_def searched_frames_def example_runtime_def
          example_deoptimizer_def)
    from notify_deoptimized [OF run cur] some cur run neq show ?thesis
      by (simp add: example_runtime_def example_deoptimizer_def)
  qed
  ultimately show ?thesis by blast
qed

text \<open>
  The replacement is not unconditional. Where the function no longer has the optimized code
  as its code it keeps the code it has:
  here function 1 has code 7, the deoptimized code is 5, no activation of it remains, and
  after the notification the function still has code 7, not its shared unoptimized code 3.
\<close>

theorem notify_deoptimized_counterexample:
  "EAGER \<noteq> LAZY
   \<and> \<not> remaining_activations (example_runtime EAGER 7 []) (example_deoptimizer EAGER)
   \<and> \<not> isl (Runtime_NotifyDeoptimized (example_runtime EAGER 7 []) EAGER)
   \<and> function_code (projr (Runtime_NotifyDeoptimized (example_runtime EAGER 7 []) EAGER)) 1 = 7
   \<and> shared_code (projr (Runtime_NotifyDeoptimized (example_runtime EAGER 7 []) EAGER))
        (function_shared (projr (Runtime_NotifyDeoptimized (example_runtime EAGER 7 []) EAGER)) 1) = 3"
  by (simp add: Runtime_NotifyDeoptimized_def example_runtime_def example_deoptimizer_def
      remaining_activations_def searched_frames_def EAGER_def LAZY_def)

section \<open>Properties of the translation format\<close>

lemma opcode_of_value: "opcode_of (opcode_value op) = Some op"
  by (cases op) (simp_all add: opcode_of_def TRANSLATION_OPCODE_LIST_def)






lemmas translation_commands =
  Translation_def Add_def CurrentIndex_def BeginJSFrame_def BeginInterpretedFrame_def
  BeginCompiledStubFrame_def BeginArgumentsAdaptorFrame_def BeginConstructStubFrame_def
  BeginGetterStubFrame_def BeginSetterStubFrame_def BeginArgumentsObject_def
  BeginCapturedObject_def DuplicateObject_def StoreRegister_def StoreInt32Register_def
  StoreUint32Register_def StoreBoolRegister_def StoreDoubleRegister_def StoreStackSlot_def
  StoreInt32StackSlot_def StoreUint32StackSlot_def StoreBoolStackSlot_def
  StoreDoubleStackSlot_def StoreLiteral_def StoreJSFrameFunction_def

lemma example_translation_eq:
  "example_translation = [0, 1, 1, 1, 0, 0, 3, 22, 10, 2, 21, 1, 11, 4, 8, 0, 12, 5]"
  by (simp add: example_translation_def translation_commands)

lemma example_Init: "Init example_input (example_iterator 0) = Inr example_state"
  by code_simp



section \<open>Properties of the arguments adaptor\<close>



section \<open>Positions of a state\<close>

lemma set_all_positions: "set (all_positions st) = {p. valid_position st p}"
  by (auto simp: all_positions_def valid_position_def)

lemma distinct_positions_upto:
  "distinct (concat (map (\<lambda>f. map (Pair f) [0..<len f]) [0..<n]))"
  by (induction n) (auto simp: distinct_map inj_on_def)

lemma distinct_all_positions: "distinct (all_positions st)"
  unfolding all_positions_def by (rule distinct_positions_upto)

lemma valid_position_set_value_at [simp]:
  "valid_position (set_value_at st p obj) q = valid_position st q"
  by (cases "fst q = fst p"; cases "fst p < length (frames st)")
     (auto simp: valid_position_def set_value_at_def)

lemma object_positions_set_value_at [simp]:
  "object_positions (set_value_at st p obj) = object_positions st"
  by (simp add: set_value_at_def)

lemma stack_frame_pointer_set_value_at [simp]:
  "stack_frame_pointer (set_value_at st p obj) = stack_frame_pointer st"
  by (simp add: set_value_at_def)

lemma length_values_set_value_at:
  "length (tf_values (frames (set_value_at st p obj) ! f)) = length (tf_values (frames st ! f))"
  by (cases "fst p < length (frames st)"; cases "f = fst p")
     (auto simp: set_value_at_def nth_list_update list_update_beyond)

lemma all_positions_set_value_at [simp]:
  "all_positions (set_value_at st p obj) = all_positions st"
proof -
  have "length (frames (set_value_at st p obj)) = length (frames st)"
    by (simp add: set_value_at_def)
  then show ?thesis
    by (simp add: all_positions_def length_values_set_value_at)
qed

lemma value_at_set_value_at_same:
  "valid_position st p \<Longrightarrow>
     value_at (set_value_at st p obj) p = (value_at st p)\<lparr>tv_value := Some obj\<rparr>"
  by (simp add: valid_position_def set_value_at_def value_at_def)

lemma value_at_set_value_at_other:
  "q \<noteq> p \<Longrightarrow> value_at (set_value_at st p obj) q = value_at st q"
  by (cases "fst q = fst p"; cases "fst p < length (frames st)")
     (auto simp: set_value_at_def value_at_def nth_list_update prod_eq_iff list_update_beyond)

lemma value_at_set_value_at:
  "valid_position st p \<Longrightarrow>
     value_at (set_value_at st p obj) q
       = (if q = p then (value_at st p)\<lparr>tv_value := Some obj\<rparr> else value_at st q)"
  by (simp add: value_at_set_value_at_same value_at_set_value_at_other)

lemma wf_positions_iff:
  "wf_positions st \<longleftrightarrow>
     (\<forall>p. valid_position st p \<longrightarrow> wf_value st p)
     \<and> (\<forall>i<length (object_positions st).
           valid_position st (object_positions st ! i)
         \<and> is_object (value_at st (object_positions st ! i))
         \<and> tv_id (value_at st (object_positions st ! i)) = i)"
  by (auto simp: wf_positions_def list_all_iff set_all_positions)

lemma all_raw_iff:
  "all_raw st \<longleftrightarrow> (\<forall>p. valid_position st p \<longrightarrow> raw_value (value_at st p))"
  by (auto simp: all_raw_def list_all_iff set_all_positions)

section \<open>Properties of materialization\<close>

lemma store_field_isolate:
  "next_address (fst (store_field isolate stack obj)) = next_address isolate
   \<and> allocation_allowed (fst (store_field isolate stack obj)) = allocation_allowed isolate
   \<and> materialized_objects (fst (store_field isolate stack obj)) = materialized_objects isolate"
  by (auto simp: store_field_def split: list.splits option.splits prod.splits)

lemma MaterializeAt_valid:
  "MaterializeAt st isolate stack p = Inr r \<Longrightarrow> valid_position st p"
  by (auto simp: MaterializeAt_def split: if_splits)

lemma MaterializeAt_state:
  assumes "MaterializeAt st isolate stack p = Inr (st', isolate', stack')"
  shows "\<exists>obj. tv_value (value_at st' p) = Some obj
          \<and> st' = (if tv_value (value_at st p) = None then set_value_at st p obj else st)"
  using assms MaterializeAt_valid [OF assms]
  by (auto simp: MaterializeAt_def finish_value_def value_at_set_value_at_same
      split: if_splits option.splits Kind.splits)

lemma MaterializeAt_isolate:
  assumes "MaterializeAt st isolate stack p = Inr (st', isolate', stack')"
  shows "next_address isolate' = next_address isolate + (if needs_allocation st p then 1 else 0)
       \<and> allocation_allowed isolate' = allocation_allowed isolate
       \<and> materialized_objects isolate' = materialized_objects isolate"
  using assms
  by (auto simp: MaterializeAt_def finish_value_def store_field_isolate needs_allocation_def
      split: if_splits option.splits Kind.splits)

lemma MaterializeAt_shape:
  assumes "MaterializeAt st isolate stack p = Inr (st', isolate', stack')"
  shows "object_positions st' = object_positions st \<and> all_positions st' = all_positions st
       \<and> stack_frame_pointer st' = stack_frame_pointer st
       \<and> (\<forall>q. valid_position st' q = valid_position st q)"
  using MaterializeAt_state [OF assms] by (auto split: if_splits)

lemma MaterializeAt_other:
  assumes "MaterializeAt st isolate stack p = Inr (st', isolate', stack')" and "q \<noteq> p"
  shows "value_at st' q = value_at st q"
  using MaterializeAt_state [OF assms(1)] assms(2)
  by (auto simp: value_at_set_value_at_other split: if_splits)

lemma MaterializeAt_mono:
  assumes "MaterializeAt st isolate stack p = Inr (st', isolate', stack')"
    and "tv_value (value_at st q) = Some obj"
  shows "value_at st' q = value_at st q"
proof (cases "q = p")
  case True
  with MaterializeAt_state [OF assms(1)] assms(2) show ?thesis by auto
next
  case False
  then show ?thesis by (rule MaterializeAt_other [OF assms(1)])
qed

lemma MaterializeAt_fields:
  assumes "MaterializeAt st isolate stack p = Inr (st', isolate', stack')"
  shows "tv_kind (value_at st' q) = tv_kind (value_at st q)
       \<and> tv_id (value_at st' q) = tv_id (value_at st q)
       \<and> tv_length (value_at st' q) = tv_length (value_at st q)"
proof (cases "q = p")
  case True
  with MaterializeAt_state [OF assms] MaterializeAt_valid [OF assms] show ?thesis
    by (auto simp: value_at_set_value_at_same split: if_splits)
next
  case False
  then show ?thesis by (simp add: MaterializeAt_other [OF assms])
qed

lemma MaterializeAt_duplicate:
  assumes "MaterializeAt st isolate stack p = Inr (st', isolate', stack')"
    and "tv_kind (value_at st p) = kDuplicatedObject"
    and "tv_value (value_at st p) = None"
  shows "\<exists>obj. tv_value (value_at st' p) = Some obj
           \<and> tv_value (value_at st (object_positions st ! tv_id (value_at st p))) = Some obj"
  using assms
  by (auto simp: MaterializeAt_def finish_value_def value_at_set_value_at_same
      split: if_splits option.splits)

lemma MaterializeAt_captured:
  assumes "MaterializeAt st isolate stack p = Inr (st', isolate', stack')"
    and "needs_allocation st p"
  shows "tv_value (value_at st' p) = Some (Tagged (next_address isolate))"
  using assms
  by (auto simp: MaterializeAt_def finish_value_def value_at_set_value_at_same needs_allocation_def
      split: if_splits option.splits)

lemma MaterializeAll_shape:
  "MaterializeAll st isolate stack ps = Inr (st', isolate', stack') \<Longrightarrow>
     object_positions st' = object_positions st \<and> all_positions st' = all_positions st
     \<and> stack_frame_pointer st' = stack_frame_pointer st
     \<and> (\<forall>q. valid_position st' q = valid_position st q)
     \<and> (\<forall>q. tv_kind (value_at st' q) = tv_kind (value_at st q)
            \<and> tv_id (value_at st' q) = tv_id (value_at st q)
            \<and> tv_length (value_at st' q) = tv_length (value_at st q))
     \<and> allocation_allowed isolate' = allocation_allowed isolate
     \<and> materialized_objects isolate' = materialized_objects isolate"
proof (induction ps arbitrary: st isolate stack)
  case Nil
  then show ?case by simp
next
  case (Cons p ps)
  from Cons.prems obtain st1 isolate1 stack1 where
    step: "MaterializeAt st isolate stack p = Inr (st1, isolate1, stack1)" and
    rest: "MaterializeAll st1 isolate1 stack1 ps = Inr (st', isolate', stack')"
    by (auto split: sum.splits)
  from Cons.IH [OF rest] MaterializeAt_shape [OF step] MaterializeAt_fields [OF step]
    MaterializeAt_isolate [OF step]
  show ?case by simp
qed

lemma MaterializeAll_mono:
  "MaterializeAll st isolate stack ps = Inr (st', isolate', stack') \<Longrightarrow>
     tv_value (value_at st q) = Some obj \<Longrightarrow> value_at st' q = value_at st q"
proof (induction ps arbitrary: st isolate stack)
  case Nil
  then show ?case by simp
next
  case (Cons p ps)
  from Cons.prems obtain st1 isolate1 stack1 where
    step: "MaterializeAt st isolate stack p = Inr (st1, isolate1, stack1)" and
    rest: "MaterializeAll st1 isolate1 stack1 ps = Inr (st', isolate', stack')"
    by (auto split: sum.splits)
  have "value_at st1 q = value_at st q"
    using MaterializeAt_mono [OF step Cons.prems(2)] .
  with Cons.IH [OF rest] Cons.prems(2) show ?case by simp
qed

lemma MaterializeAll_untouched:
  "MaterializeAll st isolate stack ps = Inr (st', isolate', stack') \<Longrightarrow>
     q \<notin> set ps \<Longrightarrow> value_at st' q = value_at st q"
proof (induction ps arbitrary: st isolate stack)
  case Nil
  then show ?case by simp
next
  case (Cons p ps)
  from Cons.prems obtain st1 isolate1 stack1 where
    step: "MaterializeAt st isolate stack p = Inr (st1, isolate1, stack1)" and
    rest: "MaterializeAll st1 isolate1 stack1 ps = Inr (st', isolate', stack')"
    by (auto split: sum.splits)
  from Cons.prems(2) have "q \<noteq> p" "q \<notin> set ps" by auto
  with Cons.IH [OF rest] MaterializeAt_other [OF step] show ?case by simp
qed


lemma MaterializeAll_duplicate:
  "MaterializeAll st isolate stack ps = Inr (st', isolate', stack') \<Longrightarrow>
     q \<in> set ps \<Longrightarrow> tv_kind (value_at st q) = kDuplicatedObject \<Longrightarrow>
     tv_value (value_at st q) = None \<Longrightarrow>
     \<exists>obj. tv_value (value_at st' q) = Some obj
       \<and> tv_value (value_at st' (object_positions st ! tv_id (value_at st q))) = Some obj"
proof (induction ps arbitrary: st isolate stack)
  case Nil
  then show ?case by simp
next
  case (Cons p ps)
  from Cons.prems obtain st1 isolate1 stack1 where
    step: "MaterializeAt st isolate stack p = Inr (st1, isolate1, stack1)" and
    rest: "MaterializeAll st1 isolate1 stack1 ps = Inr (st', isolate', stack')"
    by (auto split: sum.splits)
  show ?case
  proof (cases "q = p")
    case True
    have k: "tv_kind (value_at st p) = kDuplicatedObject"
      and n: "tv_value (value_at st p) = None"
      using Cons.prems(3,4) True by simp_all
    from MaterializeAt_duplicate [OF step k n] obtain obj where
      q1: "tv_value (value_at st1 p) = Some obj" and
      t0: "tv_value (value_at st (object_positions st ! tv_id (value_at st p))) = Some obj"
      by blast
    from MaterializeAt_mono [OF step t0] t0
    have t1: "tv_value (value_at st1 (object_positions st ! tv_id (value_at st p))) = Some obj"
      by simp
    from MaterializeAll_mono [OF rest q1] MaterializeAll_mono [OF rest t1] q1 t1 True
    show ?thesis by simp
  next
    case False
    with Cons.prems(2) have in_rest: "q \<in> set ps" by simp
    have same: "value_at st1 q = value_at st q"
      using MaterializeAt_other [OF step False] .
    have pos: "object_positions st1 = object_positions st"
      using MaterializeAt_shape [OF step] by simp
    have k: "tv_kind (value_at st1 q) = kDuplicatedObject"
      and n: "tv_value (value_at st1 q) = None"
      using Cons.prems(3,4) same by simp_all
    from Cons.IH [OF rest in_rest k n] show ?thesis
      by (simp add: same pos)
  qed
qed

lemma MaterializeAll_allocations:
  "MaterializeAll st isolate stack ps = Inr (st', isolate', stack') \<Longrightarrow> distinct ps \<Longrightarrow>
     next_address isolate' = next_address isolate + length (filter (needs_allocation st) ps)"
proof (induction ps arbitrary: st isolate stack)
  case Nil
  then show ?case by simp
next
  case (Cons p ps)
  from Cons.prems obtain st1 isolate1 stack1 where
    step: "MaterializeAt st isolate stack p = Inr (st1, isolate1, stack1)" and
    rest: "MaterializeAll st1 isolate1 stack1 ps = Inr (st', isolate', stack')"
    by (auto split: sum.splits)
  from Cons.prems(2) have d: "distinct ps" and notin: "p \<notin> set ps" by auto
  have "\<And>q. q \<in> set ps \<Longrightarrow> needs_allocation st1 q = needs_allocation st q"
  proof -
    fix q assume "q \<in> set ps"
    with notin have "q \<noteq> p" by auto
    from MaterializeAt_other [OF step this] show "needs_allocation st1 q = needs_allocation st q"
      by (simp add: needs_allocation_def)
  qed
  then have "filter (needs_allocation st1) ps = filter (needs_allocation st) ps"
    by (simp cong: filter_cong)
  with Cons.IH [OF rest d] MaterializeAt_isolate [OF step] show ?case by simp
qed

lemma MaterializeAt_immediate:
  assumes "MaterializeAt st isolate stack p = Inr (st', isolate', stack')"
    and "tv_value (value_at st p) = None"
    and "tv_kind (value_at st p) \<noteq> kCapturedObject"
    and "tv_kind (value_at st p) \<noteq> kDuplicatedObject"
  shows "tv_value (value_at st' p)
           = (if tv_kind (value_at st p) = kArgumentsObject then Some arguments_marker
              else simple_object (value_at st p))"
  using assms
  by (auto simp: MaterializeAt_def finish_value_def value_at_set_value_at_same
      split: if_splits option.splits Kind.splits)

lemma MaterializeAll_immediate:
  "MaterializeAll st isolate stack ps = Inr (st', isolate', stack') \<Longrightarrow>
     p \<in> set ps \<Longrightarrow> tv_value (value_at st p) = None \<Longrightarrow>
     tv_kind (value_at st p) \<noteq> kCapturedObject \<Longrightarrow>
     tv_kind (value_at st p) \<noteq> kDuplicatedObject \<Longrightarrow>
     tv_value (value_at st' p)
       = (if tv_kind (value_at st p) = kArgumentsObject then Some arguments_marker
          else simple_object (value_at st p))"
proof (induction ps arbitrary: st isolate stack)
  case Nil
  then show ?case by simp
next
  case (Cons q ps)
  from Cons.prems(1) obtain st1 isolate1 stack1 where
    step: "MaterializeAt st isolate stack q = Inr (st1, isolate1, stack1)" and
    rest: "MaterializeAll st1 isolate1 stack1 ps = Inr (st', isolate', stack')"
    by (auto split: sum.splits)
  show ?case
  proof (cases "p = q")
    case True
    from MaterializeAt_immediate [OF step] Cons.prems(3,4,5) True
    have v1: "tv_value (value_at st1 p)
           = (if tv_kind (value_at st p) = kArgumentsObject then Some arguments_marker
              else simple_object (value_at st p))"
      by simp
    from MaterializeAt_state [OF step] True obtain obj where "tv_value (value_at st1 p) = Some obj"
      by blast
    from MaterializeAll_mono [OF rest this] v1 show ?thesis
      by simp
  next
    case False
    with Cons.prems(2) have in_rest: "p \<in> set ps" by simp
    have same: "value_at st1 p = value_at st p"
      using MaterializeAt_other [OF step False] .
    from Cons.IH [OF rest in_rest] Cons.prems(3,4,5) same show ?thesis
      by simp
  qed
qed

lemma MaterializeAll_captured:
  "MaterializeAll st isolate stack ps = Inr (st', isolate', stack') \<Longrightarrow>
     p \<in> set ps \<Longrightarrow> needs_allocation st p \<Longrightarrow>
     \<exists>a. tv_value (value_at st' p) = Some (Tagged a)"
proof (induction ps arbitrary: st isolate stack)
  case Nil
  then show ?case by simp
next
  case (Cons q ps)
  from Cons.prems(1) obtain st1 isolate1 stack1 where
    step: "MaterializeAt st isolate stack q = Inr (st1, isolate1, stack1)" and
    rest: "MaterializeAll st1 isolate1 stack1 ps = Inr (st', isolate', stack')"
    by (auto split: sum.splits)
  show ?case
  proof (cases "p = q")
    case True
    from MaterializeAt_captured [OF step] Cons.prems(3) True
    have v1: "tv_value (value_at st1 p) = Some (Tagged (next_address isolate))"
      by simp
    from MaterializeAll_mono [OF rest v1] v1 show ?thesis
      by simp
  next
    case False
    with Cons.prems(2) have in_rest: "p \<in> set ps" by simp
    have "value_at st1 p = value_at st p"
      using MaterializeAt_other [OF step False] .
    with Cons.prems(3) have "needs_allocation st1 p"
      by (simp add: needs_allocation_def)
    from Cons.IH [OF rest in_rest this] show ?thesis .
  qed
qed

lemma Materialize_all:
  assumes "Materialize st isolate = Inr (st', isolate')"
  shows "MaterializeAll st isolate [] (all_positions st) = Inr (st', isolate', [])"
  using assms by (auto simp: Materialize_def split: sum.splits if_splits)

section \<open>Properties of the construction of a state\<close>

lemma valid_position_object_positions_update [simp]:
  "valid_position (st\<lparr>object_positions := ps\<rparr>) p = valid_position st p"
  by (simp add: valid_position_def)

lemma value_at_object_positions_update [simp]:
  "value_at (st\<lparr>object_positions := ps\<rparr>) p = value_at st p"
  by (simp add: value_at_def)

lemma frames_Add_value:
  "frames st \<noteq> [] \<Longrightarrow>
     length (frames (Add_value st v)) = length (frames st)
     \<and> last (frames (Add_value st v)) = (last (frames st))\<lparr>tf_values := tf_values (last (frames st)) @ [v]\<rparr>
     \<and> object_positions (Add_value st v) = object_positions st"
  by (simp add: Add_value_def)

lemma valid_position_Add_value:
  assumes "frames st \<noteq> []"
  shows "valid_position (Add_value st v) p \<longleftrightarrow> valid_position st p \<or> p = current_position st"
proof -
  let ?n = "length (frames st) - 1"
  have last: "last (frames st) = frames st ! ?n"
    using assms by (simp add: last_conv_nth)
  consider "fst p < ?n" | "fst p = ?n" | "?n < fst p"
    by linarith
  then show ?thesis
  proof cases
    case 1
    then show ?thesis
      using assms
      by (auto simp: valid_position_def Add_value_def current_position_def nth_append nth_butlast)
  next
    case 2
    then show ?thesis
      using assms last
      by (cases p) (auto simp: valid_position_def Add_value_def current_position_def nth_append)
  next
    case 3
    then show ?thesis
      using assms
      by (cases p) (auto simp: valid_position_def Add_value_def current_position_def)
  qed
qed

lemma value_at_Add_value_old:
  assumes "frames st \<noteq> []" and "valid_position st p"
  shows "value_at (Add_value st v) p = value_at st p"
proof -
  let ?n = "length (frames st) - 1"
  have last: "last (frames st) = frames st ! ?n"
    using assms by (simp add: last_conv_nth)
  show ?thesis
  proof (cases "fst p < ?n")
    case True
    then show ?thesis
      by (simp add: value_at_def Add_value_def nth_append nth_butlast)
  next
    case False
    with assms(2) have "fst p = ?n"
      by (auto simp: valid_position_def)
    with assms last show ?thesis
      by (auto simp: value_at_def Add_value_def nth_append valid_position_def)
  qed
qed

lemma value_at_Add_value_new:
  assumes "frames st \<noteq> []"
  shows "value_at (Add_value st v) (current_position st) = v"
  using assms by (simp add: value_at_def Add_value_def current_position_def nth_append)

lemma valid_position_before_current:
  assumes "frames st \<noteq> []" and "valid_position st p"
  shows "position_before p (current_position st)"
proof -
  have "last (frames st) = frames st ! (length (frames st) - 1)"
    using assms by (simp add: last_conv_nth)
  with assms show ?thesis
    by (cases "fst p = length (frames st) - 1")
       (auto simp: position_before_def current_position_def valid_position_def)
qed

lemma current_position_not_valid:
  "frames st \<noteq> [] \<Longrightarrow> \<not> valid_position st (current_position st)"
  by (simp add: valid_position_def current_position_def last_conv_nth)

lemma CreateNextTranslatedValue_result:
  assumes "CreateNextTranslatedValue i vi it input P = Inr (v, it', P')"
  shows "raw_value v
       \<and> (is_object v \<longrightarrow> P' = P @ [(i, vi)] \<and> tv_id v = length P)
       \<and> (\<not> is_object v \<longrightarrow> P' = P)
       \<and> (tv_kind v = kDuplicatedObject \<longrightarrow> tv_id v < length P)"
  using assms unfolding CreateNextTranslatedValue_def
  by (auto simp: raw_value_def is_object_def NewValue_def NewTagged_def NewInt32_def
      NewUInt32_def NewBool_def NewDouble_def NewDuplicateObject_def NewArgumentsObject_def
      NewDeferredObject_def
      split: sum.splits option.splits Opcode.splits if_splits)

lemma Add_value_invariant:
  assumes wf: "wf_positions st" and raw: "all_raw st" and ne: "frames st \<noteq> []"
    and i: "i = length (frames st) - 1"
    and step: "CreateNextTranslatedValue i (length (tf_values (last (frames st)))) it input
                 (object_positions st) = Inr (v, it', P')"
  shows "wf_positions ((Add_value st v)\<lparr>object_positions := P'\<rparr>)
       \<and> all_raw ((Add_value st v)\<lparr>object_positions := P'\<rparr>)"
proof -
  let ?P = "object_positions st"
  let ?st = "(Add_value st v)\<lparr>object_positions := P'\<rparr>"
  let ?c = "current_position st"
  note res = CreateNextTranslatedValue_result [OF step]
  have c: "(i, length (tf_values (last (frames st)))) = ?c"
    using i by (simp add: current_position_def)
  have valid: "\<And>p. valid_position ?st p \<longleftrightarrow> valid_position st p \<or> p = ?c"
    using valid_position_Add_value [OF ne] by simp
  have old: "\<And>p. valid_position st p \<Longrightarrow> value_at ?st p = value_at st p"
    using value_at_Add_value_old [OF ne] by simp
  have new: "value_at ?st ?c = v"
    using value_at_Add_value_new [OF ne] by simp
  have P': "P' = ?P \<or> P' = ?P @ [?c]"
    using res c by (cases "is_object v") auto
  have nth_old: "\<And>k. k < length ?P \<Longrightarrow> P' ! k = ?P ! k"
    using P' by (auto simp: nth_append)
  have len: "length ?P \<le> length P'"
    using P' by auto
  from wf have wf_old: "\<And>p. valid_position st p \<Longrightarrow> wf_value st p"
    and pos_old: "\<And>k. k < length ?P \<Longrightarrow> valid_position st (?P ! k)
          \<and> is_object (value_at st (?P ! k)) \<and> tv_id (value_at st (?P ! k)) = k"
    unfolding wf_positions_iff by blast+
  have wf_new: "wf_value ?st p" if "valid_position ?st p" for p
  proof (cases "p = ?c")
    case True
    show ?thesis
    proof (cases "is_object v")
      case obj: True
      with res c have "P' = ?P @ [?c]" "tv_id v = length ?P" by auto
      with obj True new show ?thesis
        by (auto simp: wf_value_def is_object_def)
    next
      case False
      with res have eq: "P' = ?P" by simp
      show ?thesis
      proof (cases "tv_kind v = kDuplicatedObject")
        case dup: True
        with res have lt: "tv_id v < length ?P" by simp
        from pos_old [OF lt] have "valid_position st (?P ! tv_id v)" by simp
        from valid_position_before_current [OF ne this] lt eq dup True new False
        show ?thesis by (simp add: wf_value_def)
      next
        case False
        with \<open>\<not> is_object v\<close> True new show ?thesis
          by (simp add: wf_value_def)
      qed
    qed
  next
    case False
    with that valid have v: "valid_position st p" by simp
    from wf_old [OF v] old [OF v] nth_old len show ?thesis
      by (auto simp: wf_value_def)
  qed
  have pos_new: "valid_position ?st (P' ! k) \<and> is_object (value_at ?st (P' ! k))
          \<and> tv_id (value_at ?st (P' ! k)) = k" if "k < length P'" for k
  proof (cases "k < length ?P")
    case True
    from pos_old [OF True] nth_old [OF True] old valid show ?thesis
      by simp
  next
    case False
    with that P' have eq: "P' = ?P @ [?c]" and k: "k = length ?P"
      by auto
    have "is_object v"
    proof (rule ccontr)
      assume "\<not> is_object v"
      with res have "P' = ?P" by simp
      with eq show False by simp
    qed
    with res eq k new valid show ?thesis by simp
  qed
  have raw_new: "raw_value (value_at ?st p)" if "valid_position ?st p" for p
  proof (cases "p = ?c")
    case True
    with new res show ?thesis by simp
  next
    case False
    with that valid have v: "valid_position st p" by simp
    from raw have "raw_value (value_at st p)" if "valid_position st p" for p
      using that unfolding all_raw_iff by blast
    with v old show ?thesis by simp
  qed
  have "object_positions ?st = P'"
    by simp
  with wf_new pos_new raw_new show ?thesis
    unfolding wf_positions_iff all_raw_iff by (simp del: split_paired_All)
qed

lemma read_values_invariant:
  "read_values input i n nested it st = Inr (it', st') \<Longrightarrow>
     wf_positions st \<Longrightarrow> all_raw st \<Longrightarrow> frames st \<noteq> [] \<Longrightarrow> i = length (frames st) - 1 \<Longrightarrow>
     wf_positions st' \<and> all_raw st' \<and> length (frames st') = length (frames st)"
proof (induction input i n nested it st rule: read_values.induct)
  case (1 input i n nested it st)
  note run = "1.prems"(1)
  show ?case
  proof (cases "0 < n \<or> nested \<noteq> []")
    case False
    with run have "st' = st"
      by (simp add: read_values.simps [of input i n nested it st])
    with "1.prems" show ?thesis
      by simp
  next
    case True
    with run obtain v it1 P1 where
      step: "CreateNextTranslatedValue i (length (tf_values (last (frames st)))) it input
               (object_positions st) = Inr (v, it1, P1)"
      by (auto simp: read_values.simps [of input i n nested it st] split: sum.splits)
    let ?st1 = "(Add_value st v)\<lparr>object_positions := P1\<rparr>"
    from Add_value_invariant [OF "1.prems"(2,3,4,5) step]
    have inv1: "wf_positions ?st1" "all_raw ?st1" by simp_all
    have len1: "length (frames ?st1) = length (frames st)"
      using frames_Add_value [OF "1.prems"(4)] by simp
    with "1.prems"(4,5) have ne1: "frames ?st1 \<noteq> []" and i1: "i = length (frames ?st1) - 1"
      by auto
    show ?thesis
    proof (cases "0 < GetChildrenCount v")
      case c: True
      with run True step have
        "read_values input i (GetChildrenCount v) ((n - 1) # nested) it1 ?st1 = Inr (it', st')"
        by (simp add: read_values.simps [of input i n nested it st])
      from "1.IH"(1) [OF True step refl refl c this inv1 ne1 i1] len1 show ?thesis
        by simp
    next
      case c: False
      with run True step have
        "read_values input i (fst (unwind (n - 1) nested)) (snd (unwind (n - 1) nested)) it1 ?st1
           = Inr (it', st')"
        by (simp add: read_values.simps [of input i n nested it st])
      from "1.IH"(2) [OF True step refl refl c this inv1 ne1 i1] len1 show ?thesis
        by simp
    qed
  qed
qed


lemma CreateNextTranslatedFrame_values:
  "CreateNextTranslatedFrame it input = Inr (frame, it') \<Longrightarrow> tf_values frame = []"
  unfolding CreateNextTranslatedFrame_def
  by (auto simp: JSFrame_def InterpretedFrame_def ArgumentsAdaptorFrame_def
      ConstructStubFrame_def AccessorFrame_def CompiledStubFrame_def NewFrame_def
      split: sum.splits option.splits Opcode.splits)


lemma append_frame_invariant:
  assumes "wf_positions st" and "all_raw st" and "tf_values frame = []"
  shows "wf_positions (st\<lparr>frames := frames st @ [frame]\<rparr>)
       \<and> all_raw (st\<lparr>frames := frames st @ [frame]\<rparr>)"
proof -
  let ?st = "st\<lparr>frames := frames st @ [frame]\<rparr>"
  have valid: "\<And>p. valid_position ?st p = valid_position st p"
    using assms(3)
    by (auto simp: valid_position_def nth_append less_Suc_eq)
  have val: "\<And>p. valid_position st p \<Longrightarrow> value_at ?st p = value_at st p"
    by (simp add: valid_position_def value_at_def nth_append)
  have pos: "object_positions ?st = object_positions st"
    by simp
  have wfv: "\<And>p. valid_position st p \<Longrightarrow> wf_value ?st p = wf_value st p"
    by (simp add: wf_value_def val)
  from assms(1,2) show ?thesis
    unfolding wf_positions_iff all_raw_iff valid pos
    by (simp add: val wfv del: split_paired_All)
qed


lemma read_frames_invariant:
  "read_frames k i input it st = Inr (it', st') \<Longrightarrow>
     wf_positions st \<Longrightarrow> all_raw st \<Longrightarrow> i = length (frames st) \<Longrightarrow>
     wf_positions st' \<and> all_raw st'"
proof (induction k i input it st rule: read_frames.induct)
  case (1 i input it st)
  then show ?case by simp
next
  case (2 k i input it st)
  from "2.prems"(1) obtain frame it1 it2 st2 where
    fr: "CreateNextTranslatedFrame it input = Inr (frame, it1)" and
    vals: "read_values input i (value_count input frame) [] it1
             (st\<lparr>frames := frames st @ [frame]\<rparr>) = Inr (it2, st2)" and
    rest: "read_frames k (i + 1) input it2 st2 = Inr (it', st')"
    by (auto split: sum.splits)
  let ?st1 = "st\<lparr>frames := frames st @ [frame]\<rparr>"
  from append_frame_invariant [OF "2.prems"(2,3) CreateNextTranslatedFrame_values [OF fr]]
  have inv1: "wf_positions ?st1" "all_raw ?st1" by simp_all
  have ne1: "frames ?st1 \<noteq> []" and i1: "i = length (frames ?st1) - 1"
    using "2.prems"(4) by simp_all
  from read_values_invariant [OF vals inv1 ne1 i1]
  have inv2: "wf_positions st2" "all_raw st2" and len2: "length (frames st2) = length (frames ?st1)"
    by simp_all
  from len2 "2.prems"(4) have i2: "i + 1 = length (frames st2)" by simp
  from "2.IH" [OF fr refl vals refl rest inv2 i2] show ?case .
qed

lemma NewTranslatedState_invariant:
  "wf_positions NewTranslatedState \<and> all_raw NewTranslatedState"
  by (simp add: wf_positions_def all_raw_def all_positions_def NewTranslatedState_def)

lemma Init_invariant:
  assumes "Init input it = Inr st"
  shows "wf_positions st \<and> all_raw st"
proof -
  from assms obtain k it1 it2 where
    "read_frames k 0 input it1 NewTranslatedState = Inr (it2, st)"
    unfolding Init_def
    by (auto split: sum.splits if_splits)
  from read_frames_invariant [OF this] NewTranslatedState_invariant show ?thesis
    by (simp add: NewTranslatedState_def)
qed

section \<open>Properties of the hand-off to materialization\<close>

lemma valid_position_all_positions:
  "all_positions st' = all_positions st \<Longrightarrow> valid_position st' p = valid_position st p"
  using set_all_positions [of st] set_all_positions [of st'] by auto

lemma same_shape_iff:
  "same_shape st st' \<longleftrightarrow>
     object_positions st' = object_positions st \<and> all_positions st' = all_positions st
     \<and> (\<forall>p. valid_position st p \<longrightarrow> same_fields (value_at st p) (value_at st' p))"
  by (auto simp: same_shape_def list_all_iff set_all_positions)

lemma same_shape_valid:
  "same_shape st st' \<Longrightarrow> valid_position st' p = valid_position st p"
  unfolding same_shape_iff using valid_position_all_positions by blast

lemma same_shape_refl: "same_shape st st"
  by (simp add: same_shape_iff same_fields_def)

lemma same_shape_trans:
  assumes "same_shape st st'" and "same_shape st' st''"
  shows "same_shape st st''"
proof -
  have "same_fields (value_at st p) (value_at st'' p)" if "valid_position st p" for p
  proof -
    from that assms(1) have "valid_position st' p"
      by (simp add: same_shape_valid)
    with assms that have "same_fields (value_at st p) (value_at st' p)"
      "same_fields (value_at st' p) (value_at st'' p)"
      unfolding same_shape_iff by blast+
    then show ?thesis by (simp add: same_fields_def)
  qed
  with assms show ?thesis
    unfolding same_shape_iff by (simp del: split_paired_All)
qed

lemma same_shape_set_value_at: "same_shape st (set_value_at st p obj)"
proof -
  have "same_fields (value_at st q) (value_at (set_value_at st p obj) q)"
    if "valid_position st q" for q
  proof (cases "q = p")
    case True
    with that show ?thesis
      by (simp add: value_at_set_value_at_same same_fields_def)
  next
    case False
    then show ?thesis
      by (simp add: value_at_set_value_at_other same_fields_def)
  qed
  then show ?thesis
    unfolding same_shape_iff by (simp del: split_paired_All)
qed

lemma wf_positions_same_shape:
  assumes "same_shape st st'" and "wf_positions st"
  shows "wf_positions st'"
proof -
  from assms(1) have pos: "object_positions st' = object_positions st"
    and valid: "\<And>p. valid_position st' p = valid_position st p"
    and fields: "\<And>p. valid_position st p \<Longrightarrow> same_fields (value_at st p) (value_at st' p)"
    using same_shape_valid [OF assms(1)] unfolding same_shape_iff by blast+
  from assms(2) have wf: "\<And>p. valid_position st p \<Longrightarrow> wf_value st p"
    and obj: "\<And>i. i < length (object_positions st) \<Longrightarrow>
          valid_position st (object_positions st ! i)
        \<and> is_object (value_at st (object_positions st ! i))
        \<and> tv_id (value_at st (object_positions st ! i)) = i"
    unfolding wf_positions_iff by blast+
  have "wf_value st' p" if "valid_position st p" for p
    using wf [OF that] fields [OF that] pos
    by (simp add: wf_value_def same_fields_def is_object_def)
  moreover have "valid_position st (object_positions st ! i)
        \<and> is_object (value_at st' (object_positions st ! i))
        \<and> tv_id (value_at st' (object_positions st ! i)) = i"
    if "i < length (object_positions st)" for i
  proof -
    from obj [OF that] have v: "valid_position st (object_positions st ! i)" by simp
    from obj [OF that] fields [OF v] show ?thesis
      by (simp add: same_fields_def is_object_def)
  qed
  ultimately show ?thesis
    unfolding wf_positions_iff pos valid by (simp del: split_paired_All)
qed

lemma all_positions_cong:
  assumes "length (frames st') = length (frames st)"
    and "\<And>f. f < length (frames st) \<Longrightarrow>
           length (tf_values (frames st' ! f)) = length (tf_values (frames st ! f))"
  shows "all_positions st' = all_positions st"
proof -
  have "map (\<lambda>f. map (Pair f) [0..<length (tf_values (frames st' ! f))]) [0..<length (frames st)]
      = map (\<lambda>f. map (Pair f) [0..<length (tf_values (frames st ! f))]) [0..<length (frames st)]"
    by (rule map_cong [OF refl]) (simp add: assms(2))
  then show ?thesis
    unfolding all_positions_def assms(1) by (rule arg_cong)
qed

lemma all_positions_handlified [simp]:
  "all_positions (handlified st adapted fp) = all_positions st"
  by (rule all_positions_cong) (simp_all add: handlified_def Handlify_frame_def)

lemma object_positions_handlified [simp]:
  "object_positions (handlified st adapted fp) = object_positions st"
  by (simp add: handlified_def)

lemma value_at_handlified:
  "valid_position st p \<Longrightarrow>
     value_at (handlified st adapted fp) p = Handlify_value (value_at st p)"
  by (simp add: valid_position_def value_at_def handlified_def Handlify_frame_def)

lemma same_shape_handlified: "same_shape st (handlified st adapted fp)"
  unfolding same_shape_iff
  by (simp add: value_at_handlified same_fields_def Handlify_value_def del: split_paired_All)

lemma inject_previous_shape:
  "same_shape st (inject_previous st prev is)
   \<and> stack_frame_pointer (inject_previous st prev is) = stack_frame_pointer st"
proof (induction "is" arbitrary: st)
  case Nil
  then show ?case by (simp add: same_shape_refl)
next
  case (Cons i "is")
  let ?st1 = "if prev ! i \<noteq> arguments_marker
              then set_value_at st (object_positions st ! i) (prev ! i) else st"
  have one: "same_shape st ?st1" and fp: "stack_frame_pointer ?st1 = stack_frame_pointer st"
    by (simp_all add: same_shape_set_value_at same_shape_refl)
  from Cons.IH [of ?st1] have
    "same_shape ?st1 (inject_previous ?st1 prev is)"
    "stack_frame_pointer (inject_previous ?st1 prev is) = stack_frame_pointer ?st1"
    by blast+
  with same_shape_trans [OF one] fp show ?case
    by simp
qed

lemma inject_previous_other:
  "\<forall>i\<in>set is. object_positions st ! i \<noteq> p \<Longrightarrow>
     value_at (inject_previous st prev is) p = value_at st p"
proof (induction "is" arbitrary: st)
  case Nil
  then show ?case by simp
next
  case (Cons i "is")
  let ?st1 = "if prev ! i \<noteq> arguments_marker
              then set_value_at st (object_positions st ! i) (prev ! i) else st"
  from Cons.prems have "p \<noteq> object_positions st ! i"
    by auto
  then have "value_at ?st1 p = value_at st p"
    by (simp add: value_at_set_value_at_other)
  moreover from Cons.prems have "\<forall>j\<in>set is. object_positions ?st1 ! j \<noteq> p"
    by simp
  ultimately show ?case
    using Cons.IH [of ?st1] by simp
qed

lemma Prepare_eq:
  "Prepare st isolate adapted fp =
     UpdateFromPreviouslyMaterializedObjects (handlified st adapted fp) isolate"
  by (simp add: Prepare_def handlified_def)

lemma Prepare_shape:
  assumes "Prepare st0 isolate adapted fp = Inr st"
  shows "same_shape st0 st \<and> stack_frame_pointer st = fp"
proof -
  have fp: "stack_frame_pointer (handlified st0 adapted fp) = fp"
    by (simp add: handlified_def)
  from assms have "st = handlified st0 adapted fp
      \<or> (\<exists>prev. st = inject_previous (handlified st0 adapted fp) prev
                     [0..<length (object_positions (handlified st0 adapted fp))])"
    unfolding Prepare_eq UpdateFromPreviouslyMaterializedObjects_def
    by (auto split: option.splits if_splits)
  then show ?thesis
  proof
    assume "st = handlified st0 adapted fp"
    with fp same_shape_handlified [of st0 adapted fp] show ?thesis by simp
  next
    assume "\<exists>prev. st = inject_previous (handlified st0 adapted fp) prev
                     [0..<length (object_positions (handlified st0 adapted fp))]"
    then obtain prev where
      st: "st = inject_previous (handlified st0 adapted fp) prev
                  [0..<length (object_positions (handlified st0 adapted fp))]"
      by blast
    from inject_previous_shape [of "handlified st0 adapted fp" prev
        "[0..<length (object_positions (handlified st0 adapted fp))]"]
      same_shape_trans [OF same_shape_handlified [of st0 adapted fp]] fp st
    show ?thesis by simp
  qed
qed

lemma Prepare_not_object:
  assumes "Prepare st0 isolate adapted fp = Inr st" and "wf_positions st0"
    and "valid_position st0 p" and "\<not> is_object (value_at st0 p)"
  shows "value_at st p = Handlify_value (value_at st0 p)"
proof -
  let ?h = "handlified st0 adapted fp"
  from assms(2) have "\<And>i. i < length (object_positions st0) \<Longrightarrow>
      is_object (value_at st0 (object_positions st0 ! i))"
    unfolding wf_positions_iff by blast
  with assms(4) have ne: "\<forall>i\<in>set [0..<length (object_positions ?h)]. object_positions ?h ! i \<noteq> p"
    by auto
  from assms(1) have "st = ?h
      \<or> (\<exists>prev. st = inject_previous ?h prev [0..<length (object_positions ?h)])"
    unfolding Prepare_eq UpdateFromPreviouslyMaterializedObjects_def
    by (auto split: option.splits if_splits)
  with inject_previous_other [OF ne] value_at_handlified [OF assms(3)] show ?thesis
    by auto
qed

section \<open>Identity of materialized objects\<close>






section \<open>Order of duplicate objects\<close>

lemma duplicate_of_unseen_object:
  assumes "it_index it + 1 < length (it_buffer it)"
    and "it_buffer it ! it_index it = opcode_value DUPLICATED_OBJECT"
    and "\<not> (0 \<le> it_buffer it ! (it_index it + 1)
            \<and> nat (it_buffer it ! (it_index it + 1)) < length positions)"
  shows "CreateNextTranslatedValue frame_index value_index it input positions
           = Inl StreamOrderingViolation"
  using assms opcode_of_value [of DUPLICATED_OBJECT]
  by (simp add: CreateNextTranslatedValue_def Next_def HasNext_def)

lemma read_values_aborts:
  assumes "0 < n \<or> nested \<noteq> []"
    and "CreateNextTranslatedValue i (length (tf_values (last (frames st)))) it input
           (object_positions st) = Inl e"
  shows "read_values input i n nested it st = Inl e"
  using assms by (simp add: read_values.simps [of input i n nested it st])

text \<open>
  C5. When the walk over the values reaches a duplicate-object opcode whose object id is
  not among the ids of the objects that have appeared so far, it ends with a
  stream-ordering violation instead of producing a value. So whenever a state has been
  built, each of its duplicate objects refers to an id that is recorded for an object at an
  earlier position of the depth-first walk. Materialization, too, resolves a duplicate
  only to an object that has been materialized already, and ends with a stream-ordering
  violation otherwise.
\<close>

theorem duplicate_refers_to_earlier_object:
  "(it_index it + 1 < length (it_buffer it)
      \<and> it_buffer it ! it_index it = opcode_value DUPLICATED_OBJECT
      \<and> \<not> (0 \<le> it_buffer it ! (it_index it + 1)
            \<and> nat (it_buffer it ! (it_index it + 1)) < length (object_positions st))
      \<and> (0 < n \<or> nested \<noteq> [])
      \<longrightarrow> read_values input i n nested it st = Inl StreamOrderingViolation)
   \<and> (Init input it0 = Inr st0 \<and> valid_position st0 q
        \<and> tv_kind (value_at st0 q) = kDuplicatedObject
      \<longrightarrow> tv_id (value_at st0 q) < length (object_positions st0)
        \<and> position_before (object_positions st0 ! tv_id (value_at st0 q)) q
        \<and> valid_position st0 (object_positions st0 ! tv_id (value_at st0 q))
        \<and> is_object (value_at st0 (object_positions st0 ! tv_id (value_at st0 q)))
        \<and> tv_id (value_at st0 (object_positions st0 ! tv_id (value_at st0 q)))
            = tv_id (value_at st0 q))
   \<and> (valid_position st1 r \<and> tv_kind (value_at st1 r) = kDuplicatedObject
        \<and> tv_value (value_at st1 r) = None
        \<and> (tv_id (value_at st1 r) < length (object_positions st1) \<longrightarrow>
             valid_position st1 (object_positions st1 ! tv_id (value_at st1 r))
           \<and> tv_value (value_at st1 (object_positions st1 ! tv_id (value_at st1 r))) = None)
      \<longrightarrow> MaterializeAt st1 isolate stack r = Inl StreamOrderingViolation)"
proof -
  have walk: "read_values input i n nested it st = Inl StreamOrderingViolation"
    if "it_index it + 1 < length (it_buffer it)"
      and "it_buffer it ! it_index it = opcode_value DUPLICATED_OBJECT"
      and "\<not> (0 \<le> it_buffer it ! (it_index it + 1)
            \<and> nat (it_buffer it ! (it_index it + 1)) < length (object_positions st))"
      and "0 < n \<or> nested \<noteq> []"
    using read_values_aborts [OF that(4) duplicate_of_unseen_object [OF that(1,2,3)]] .
  have built: "tv_id (value_at st0 q) < length (object_positions st0)
        \<and> position_before (object_positions st0 ! tv_id (value_at st0 q)) q
        \<and> valid_position st0 (object_positions st0 ! tv_id (value_at st0 q))
        \<and> is_object (value_at st0 (object_positions st0 ! tv_id (value_at st0 q)))
        \<and> tv_id (value_at st0 (object_positions st0 ! tv_id (value_at st0 q)))
            = tv_id (value_at st0 q)"
    if "Init input it0 = Inr st0" and "valid_position st0 q"
      and "tv_kind (value_at st0 q) = kDuplicatedObject"
  proof -
    from Init_invariant [OF that(1)] have wf: "wf_positions st0" by simp
    from wf that(2,3) have lt: "tv_id (value_at st0 q) < length (object_positions st0)"
      and before: "position_before (object_positions st0 ! tv_id (value_at st0 q)) q"
      unfolding wf_positions_iff wf_value_def by blast+
    from wf lt have "valid_position st0 (object_positions st0 ! tv_id (value_at st0 q))
        \<and> is_object (value_at st0 (object_positions st0 ! tv_id (value_at st0 q)))
        \<and> tv_id (value_at st0 (object_positions st0 ! tv_id (value_at st0 q)))
            = tv_id (value_at st0 q)"
      unfolding wf_positions_iff by blast
    with lt before show ?thesis by simp
  qed
  have mat: "MaterializeAt st1 isolate stack r = Inl StreamOrderingViolation"
    if "valid_position st1 r" and "tv_kind (value_at st1 r) = kDuplicatedObject"
      and "tv_value (value_at st1 r) = None"
      and "tv_id (value_at st1 r) < length (object_positions st1) \<longrightarrow>
             valid_position st1 (object_positions st1 ! tv_id (value_at st1 r))
           \<and> tv_value (value_at st1 (object_positions st1 ! tv_id (value_at st1 r))) = None"
    using that by (simp add: MaterializeAt_def)
  from walk built mat show ?thesis by blast
qed

theorem duplicate_refers_to_earlier_object_witness:
  "it_index \<lparr>it_buffer = example_forward_reference, it_index = 8\<rparr> + 1
        < length (it_buffer \<lparr>it_buffer = example_forward_reference, it_index = 8\<rparr>)
   \<and> example_forward_reference ! 8 = opcode_value DUPLICATED_OBJECT
   \<and> \<not> nat (example_forward_reference ! 9) < length (object_positions example_partial)
   \<and> read_values example_input 0 1 [] \<lparr>it_buffer = example_forward_reference, it_index = 8\<rparr>
        example_partial = Inl StreamOrderingViolation
   \<and> Init example_input \<lparr>it_buffer = example_forward_reference, it_index = 0\<rparr>
        = Inl StreamOrderingViolation
   \<and> Init example_input (example_iterator 0) = Inr example_state
   \<and> valid_position example_state (0, 4)
   \<and> tv_kind (value_at example_state (0, 4)) = kDuplicatedObject
   \<and> object_positions example_state ! tv_id (value_at example_state (0, 4)) = (0, 1)
   \<and> position_before (0, 1) (0, 4)
   \<and> tv_value (value_at example_state (0, 4)) = None
   \<and> tv_value (value_at example_state (0, 1)) = None
   \<and> MaterializeAt example_state example_isolate [] (0, 4) = Inl StreamOrderingViolation"
proof -
  let ?it = "\<lparr>it_buffer = example_forward_reference, it_index = 8\<rparr>"
  have buf: "example_forward_reference = [0, 1, 1, 1, 0, 0, 1, 22, 8, 0]"
    by (simp add: example_forward_reference_def translation_commands)
  have a: "it_index ?it + 1 < length (it_buffer ?it)"
    "it_buffer ?it ! it_index ?it = opcode_value DUPLICATED_OBJECT"
    "\<not> (0 \<le> it_buffer ?it ! (it_index ?it + 1)
        \<and> nat (it_buffer ?it ! (it_index ?it + 1)) < length (object_positions example_partial))"
    by (simp_all add: buf example_partial_def NewTranslatedState_def)
  have init: "Init example_input \<lparr>it_buffer = example_forward_reference, it_index = 0\<rparr>
        = Inl StreamOrderingViolation"
    by code_simp
  have b: "valid_position example_state (0, 4)"
    "tv_kind (value_at example_state (0, 4)) = kDuplicatedObject"
    "object_positions example_state ! tv_id (value_at example_state (0, 4)) = (0, 1)"
    "tv_value (value_at example_state (0, 4)) = None"
    "tv_value (value_at example_state (0, 1)) = None"
    "valid_position example_state (0, 1)"
    by code_simp+
  have c: "position_before (0, 1) (0, 4)"
    by (simp add: position_before_def)
  from duplicate_refers_to_earlier_object
    [where it = ?it and st = example_partial and n = 1 and nested = "[]" and input = example_input
       and i = 0 and ?it0.0 = "example_iterator 0" and ?st0.0 = example_state and q = "(0, 4)"
       and ?st1.0 = example_state and r = "(0, 4)" and isolate = example_isolate and stack = "[]"]
    a init b c example_Init
  show ?thesis by (simp add: buf)
qed

section \<open>Raw values and true values\<close>

lemma materialize_nested_mono:
  "materialize_nested st isolate stack ps = Inr (st', isolate', stack') \<Longrightarrow>
     tv_value (value_at st q) = Some obj \<Longrightarrow> value_at st' q = value_at st q"
proof (induction ps arbitrary: st isolate stack)
  case Nil
  then show ?case by simp
next
  case (Cons p ps)
  show ?case
  proof (cases "stack = []")
    case True
    with Cons.prems show ?thesis by simp
  next
    case False
    with Cons.prems obtain st1 isolate1 stack1 where
      step: "MaterializeAt st isolate stack p = Inr (st1, isolate1, stack1)" and
      rest: "materialize_nested st1 isolate1 stack1 ps = Inr (st', isolate', stack')"
      by (auto split: sum.splits)
    have "value_at st1 q = value_at st q"
      using MaterializeAt_mono [OF step Cons.prems(2)] .
    with Cons.IH [OF rest] Cons.prems(2) show ?thesis by simp
  qed
qed








section \<open>Allocation during construction and materialization\<close>






section \<open>Repeated materialization of a frame\<close>

lemma wf_positions_inj:
  assumes "wf_positions st" and "i < length (object_positions st)"
    and "j < length (object_positions st)"
    and "object_positions st ! i = object_positions st ! j"
  shows "i = j"
proof -
  from assms(1,2) have "i = tv_id (value_at st (object_positions st ! i))"
    unfolding wf_positions_iff by metis
  also have "\<dots> = tv_id (value_at st (object_positions st ! j))"
    by (simp only: assms(4))
  also from assms(1,3) have "\<dots> = j"
    unfolding wf_positions_iff by metis
  finally show ?thesis .
qed

lemma inject_previous_at:
  "i \<in> set is \<Longrightarrow> distinct is \<Longrightarrow>
     \<forall>j\<in>set is. j \<noteq> i \<longrightarrow> object_positions st ! j \<noteq> object_positions st ! i \<Longrightarrow>
     valid_position st (object_positions st ! i) \<Longrightarrow>
     tv_value (value_at (inject_previous st prev is) (object_positions st ! i))
       = (if prev ! i \<noteq> arguments_marker then Some (prev ! i)
          else tv_value (value_at st (object_positions st ! i)))"
proof (induction "is" arbitrary: st)
  case Nil
  then show ?case by simp
next
  case (Cons h "is")
  let ?st1 = "if prev ! h \<noteq> arguments_marker
              then set_value_at st (object_positions st ! h) (prev ! h) else st"
  have pos: "object_positions ?st1 = object_positions st"
    by simp
  show ?case
  proof (cases "h = i")
    case True
    with Cons.prems(2) have "i \<notin> set is" by simp
    with Cons.prems(3) have "\<forall>j\<in>set is. object_positions ?st1 ! j \<noteq> object_positions st ! i"
      by (auto simp: pos)
    from inject_previous_other [OF this, of prev]
    have rest: "value_at (inject_previous ?st1 prev is) (object_positions st ! i)
            = value_at ?st1 (object_positions st ! i)" .
    have "tv_value (value_at ?st1 (object_positions st ! i))
            = (if prev ! i \<noteq> arguments_marker then Some (prev ! i)
               else tv_value (value_at st (object_positions st ! i)))"
      using True Cons.prems(4) by (simp add: value_at_set_value_at_same)
    with rest have "tv_value (value_at (inject_previous ?st1 prev is) (object_positions st ! i))
            = (if prev ! i \<noteq> arguments_marker then Some (prev ! i)
               else tv_value (value_at st (object_positions st ! i)))"
      by simp
    then show ?thesis
      by (simp only: inject_previous.simps)
  next
    case False
    with Cons.prems(1) have in_rest: "i \<in> set is" by simp
    from Cons.prems(2) have d: "distinct is" by simp
    from Cons.prems(3) have ne: "\<forall>j\<in>set is. j \<noteq> i \<longrightarrow>
        object_positions ?st1 ! j \<noteq> object_positions ?st1 ! i"
      by (simp add: pos)
    from Cons.prems(3) False have hi: "object_positions st ! i \<noteq> object_positions st ! h"
      by auto
    then have same: "value_at ?st1 (object_positions st ! i) = value_at st (object_positions st ! i)"
      by (simp add: value_at_set_value_at_other)
    from Cons.prems(4) have valid: "valid_position ?st1 (object_positions ?st1 ! i)"
      by simp
    from Cons.IH [OF in_rest d ne valid] same show ?thesis
      by (simp add: pos)
  qed
qed

lemma Store_result:
  assumes "StoreMaterializedValuesAndDeopt st isolate = Inr isolate'"
    and "materialized_objects isolate (stack_frame_pointer st) = None"
  shows "next_address isolate' = next_address isolate
       \<and> (if list_ex (\<lambda>obj. obj \<noteq> arguments_marker) (materialized_values st)
           then materialized_objects isolate' (stack_frame_pointer st)
                  = Some (materialized_values st)
           else materialized_objects isolate' (stack_frame_pointer st) = None)"
  using assms
  by (auto simp: StoreMaterializedValuesAndDeopt_def MaterializedObjectStore_Get_def
      MaterializedObjectStore_Set_def split: if_splits)

lemma Store_next_address:
  "StoreMaterializedValuesAndDeopt st isolate = Inr isolate' \<Longrightarrow>
     next_address isolate' = next_address isolate"
  by (auto simp: StoreMaterializedValuesAndDeopt_def MaterializedObjectStore_Get_def
      MaterializedObjectStore_Set_def split: if_splits option.splits)


lemma Materialize_values:
  assumes wf: "wf_positions st0" and raw: "all_raw st0"
    and prep: "Prepare st0 isolate0 adapted fp = Inr st"
    and mat: "Materialize st isolate = Inr (st', isolate')"
    and valid: "valid_position st0 p"
  shows "tv_value (value_at st p) = Some obj \<longrightarrow> tv_value (value_at st' p) = Some obj"
    and "tv_kind (value_at st0 p) = kArgumentsObject \<and> tv_value (value_at st p) = None \<longrightarrow>
           tv_value (value_at st' p) = Some arguments_marker"
    and "tv_kind (value_at st0 p) = kCapturedObject \<and> tv_value (value_at st p) = None \<longrightarrow>
           (\<exists>a. tv_value (value_at st' p) = Some (Tagged a))"
    and "tv_kind (value_at st0 p) = kDuplicatedObject \<longrightarrow>
           tv_value (value_at st' p)
             = tv_value (value_at st' (object_positions st0 ! tv_id (value_at st0 p)))"
    and "tv_kind (value_at st0 p) = kTagged \<longrightarrow>
           tv_value (value_at st' p) = tv_raw_literal (value_at st0 p)"
    and "\<not> IsMaterializedObject (value_at st0 p) \<and> tv_kind (value_at st0 p) \<noteq> kTagged \<longrightarrow>
           tv_value (value_at st' p) = simple_object (value_at st0 p)"
proof -
  note all = Materialize_all [OF mat]
  from Prepare_shape [OF prep] have shape: "same_shape st0 st"
    by simp
  then have pos: "object_positions st = object_positions st0"
    and valid': "valid_position st p"
    and fields: "same_fields (value_at st0 p) (value_at st p)"
    using valid same_shape_valid [OF shape] unfolding same_shape_iff by blast+
  from valid' have mem: "p \<in> set (all_positions st)"
    by (simp add: set_all_positions)
  from raw valid have raw_p: "raw_value (value_at st0 p)"
    unfolding all_raw_iff by blast
  have plain: "value_at st p = Handlify_value (value_at st0 p)"
    if "\<not> is_object (value_at st0 p)"
    using Prepare_not_object [OF prep wf valid that] .
  show "tv_value (value_at st p) = Some obj \<longrightarrow> tv_value (value_at st' p) = Some obj"
    using MaterializeAll_mono [OF all] by auto
  show "tv_kind (value_at st0 p) = kArgumentsObject \<and> tv_value (value_at st p) = None \<longrightarrow>
           tv_value (value_at st' p) = Some arguments_marker"
    using MaterializeAll_immediate [OF all mem] fields
    by (auto simp: same_fields_def)
  show "tv_kind (value_at st0 p) = kCapturedObject \<and> tv_value (value_at st p) = None \<longrightarrow>
           (\<exists>a. tv_value (value_at st' p) = Some (Tagged a))"
    using MaterializeAll_captured [OF all mem] fields
    by (auto simp: same_fields_def needs_allocation_def)
  show "tv_kind (value_at st0 p) = kDuplicatedObject \<longrightarrow>
           tv_value (value_at st' p)
             = tv_value (value_at st' (object_positions st0 ! tv_id (value_at st0 p)))"
  proof
    assume k: "tv_kind (value_at st0 p) = kDuplicatedObject"
    then have "\<not> is_object (value_at st0 p)"
      by (simp add: is_object_def)
    from plain [OF this] k raw_p have "tv_kind (value_at st p) = kDuplicatedObject"
      and "tv_value (value_at st p) = None"
      and "tv_id (value_at st p) = tv_id (value_at st0 p)"
      by (simp_all add: Handlify_value_def raw_value_def)
    with MaterializeAll_duplicate [OF all mem] pos
    show "tv_value (value_at st' p)
             = tv_value (value_at st' (object_positions st0 ! tv_id (value_at st0 p)))"
      by auto
  qed
  show "tv_kind (value_at st0 p) = kTagged \<longrightarrow>
           tv_value (value_at st' p) = tv_raw_literal (value_at st0 p)"
  proof
    assume k: "tv_kind (value_at st0 p) = kTagged"
    then have "\<not> is_object (value_at st0 p)"
      by (simp add: is_object_def)
    from plain [OF this] k raw_p obtain lit where
      "tv_raw_literal (value_at st0 p) = Some lit" and "tv_value (value_at st p) = Some lit"
      by (auto simp: Handlify_value_def raw_value_def)
    with MaterializeAll_mono [OF all, of p lit]
    show "tv_value (value_at st' p) = tv_raw_literal (value_at st0 p)"
      by simp
  qed
  show "\<not> IsMaterializedObject (value_at st0 p) \<and> tv_kind (value_at st0 p) \<noteq> kTagged \<longrightarrow>
           tv_value (value_at st' p) = simple_object (value_at st0 p)"
  proof
    assume k: "\<not> IsMaterializedObject (value_at st0 p) \<and> tv_kind (value_at st0 p) \<noteq> kTagged"
    then have "\<not> is_object (value_at st0 p)"
      by (simp add: is_object_def IsMaterializedObject_def)
    from plain [OF this] k raw_p have eq: "value_at st p = value_at st0 p"
      and none: "tv_value (value_at st p) = None"
      by (simp_all add: Handlify_value_def raw_value_def)
    from MaterializeAll_immediate [OF all mem none] k eq
    show "tv_value (value_at st' p) = simple_object (value_at st0 p)"
      by (simp add: IsMaterializedObject_def)
  qed
qed

lemma Prepare_first:
  assumes "Prepare st0 isolate adapted fp = Inr st"
    and "materialized_objects isolate fp = None"
  shows "st = handlified st0 adapted fp"
  using assms
  by (simp add: Prepare_eq UpdateFromPreviouslyMaterializedObjects_def
      MaterializedObjectStore_Get_def handlified_def)

lemma Prepare_again:
  assumes wf: "wf_positions st0" and raw: "all_raw st0"
    and prep: "Prepare st0 isolate adapted fp = Inr st"
    and table: "materialized_objects isolate fp
                  = (if list_ex (\<lambda>obj. obj \<noteq> arguments_marker) mv then Some mv else None)"
    and len: "length mv = length (object_positions st0)"
    and valid: "valid_position st0 p" and obj: "is_object (value_at st0 p)"
  shows "tv_value (value_at st p)
           = (if mv ! tv_id (value_at st0 p) \<noteq> arguments_marker
              then Some (mv ! tv_id (value_at st0 p)) else None)"
proof -
  let ?h = "handlified st0 adapted fp"
  let ?i = "tv_id (value_at st0 p)"
  from wf valid obj have lt: "?i < length (object_positions st0)"
    and pos: "object_positions st0 ! ?i = p"
    unfolding wf_positions_iff wf_value_def by blast+
  from raw valid have "raw_value (value_at st0 p)"
    unfolding all_raw_iff by blast
  with obj have none: "tv_value (value_at ?h p) = None"
    by (auto simp: value_at_handlified [OF valid] Handlify_value_def raw_value_def is_object_def)
  have fp: "stack_frame_pointer ?h = fp"
    by (simp add: handlified_def)
  show ?thesis
  proof (cases "list_ex (\<lambda>obj. obj \<noteq> arguments_marker) mv")
    case False
    with table prep fp have "st = ?h"
      by (simp add: Prepare_eq UpdateFromPreviouslyMaterializedObjects_def
          MaterializedObjectStore_Get_def)
    moreover from False have "\<forall>obj\<in>set mv. obj = arguments_marker"
      by (auto simp: list_ex_iff)
    with lt len have "mv ! ?i = arguments_marker"
      using nth_mem [of ?i mv] by simp
    ultimately show ?thesis
      using none by simp
  next
    case True
    with table prep fp len have st: "st = inject_previous ?h mv [0..<length (object_positions ?h)]"
      by (simp add: Prepare_eq UpdateFromPreviouslyMaterializedObjects_def
          MaterializedObjectStore_Get_def)
    have mem: "?i \<in> set [0..<length (object_positions ?h)]"
      using lt by simp
    have inj: "\<forall>j\<in>set [0..<length (object_positions ?h)]. j \<noteq> ?i \<longrightarrow>
        object_positions ?h ! j \<noteq> object_positions ?h ! ?i"
      using wf_positions_inj [OF wf _ lt] by auto
    have v: "valid_position ?h (object_positions ?h ! ?i)"
      using valid pos same_shape_valid [OF same_shape_handlified] by simp
    from inject_previous_at [OF mem _ inj v, of mv] st pos none
    show ?thesis by simp
  qed
qed

lemma first_run_objects:
  assumes wf: "wf_positions st0" and raw: "all_raw st0"
    and prep: "Prepare st0 isolate adapted fp = Inr st"
    and fresh: "materialized_objects isolate fp = None"
    and mat: "Materialize st isolate = Inr (st', isolate')"
    and valid: "valid_position st0 p"
  shows "tv_kind (value_at st0 p) = kCapturedObject \<longrightarrow>
           (\<exists>a. tv_value (value_at st' p) = Some (Tagged a))"
    and "tv_kind (value_at st0 p) = kArgumentsObject \<longrightarrow>
           tv_value (value_at st' p) = Some arguments_marker"
proof -
  from raw valid have "raw_value (value_at st0 p)"
    unfolding all_raw_iff by blast
  then have none: "tv_kind (value_at st0 p) \<noteq> kTagged \<longrightarrow> tv_value (value_at st p) = None"
    unfolding Prepare_first [OF prep fresh]
    by (simp add: value_at_handlified [OF valid] Handlify_value_def raw_value_def)
  from Materialize_values(3) [OF wf raw prep mat valid] none
  show "tv_kind (value_at st0 p) = kCapturedObject \<longrightarrow>
           (\<exists>a. tv_value (value_at st' p) = Some (Tagged a))"
    by simp
  from Materialize_values(2) [OF wf raw prep mat valid] none
  show "tv_kind (value_at st0 p) = kArgumentsObject \<longrightarrow>
           tv_value (value_at st' p) = Some arguments_marker"
    by simp
qed

lemma materialized_values_at:
  assumes wf: "wf_positions st0"
    and pos: "object_positions st1 = object_positions st0"
    and valid: "valid_position st0 p" and obj: "is_object (value_at st0 p)"
  shows "materialized_values st1 ! tv_id (value_at st0 p) = GetRawValue (value_at st1 p)"
proof -
  from wf valid obj have lt: "tv_id (value_at st0 p) < length (object_positions st0)"
    and at: "object_positions st0 ! tv_id (value_at st0 p) = p"
    unfolding wf_positions_iff wf_value_def by blast+
  then show ?thesis
    by (simp add: materialized_values_def pos)
qed

text \<open>
  C3. Materialization of the same still-live physical frame, identified by its frame
  pointer, is idempotent: after a first materialization of the frame, a second
  deoptimization of the frame consults the table of materialized objects for the frame
  pointer; every value of the frame is the identical object instance that the first
  materialization produced, the captured objects are the instances read from the table at
  their object ids, and no fresh object is allocated.
\<close>

theorem repeated_materialization:
  assumes init: "Init input it = Inr st0"
    and fresh: "materialized_objects isolate fp = None"
    and first: "MaterializeFrame st0 isolate adapted fp = Inr (st1, isolate1)"
    and second: "MaterializeFrame st0 isolate1 adapted fp = Inr (st2, isolate2)"
  shows "next_address isolate2 = next_address isolate1
       \<and> (\<forall>p. valid_position st0 p \<longrightarrow>
            tv_value (value_at st2 p) = tv_value (value_at st1 p))
       \<and> (\<forall>p. valid_position st0 p \<and> tv_kind (value_at st0 p) = kCapturedObject \<longrightarrow>
            (\<exists>mv. MaterializedObjectStore_Get isolate1 fp = Some mv
                 \<and> tv_value (value_at st2 p) = Some (mv ! tv_id (value_at st0 p))))"
proof -
  from Init_invariant [OF init] have wf: "wf_positions st0" and raw: "all_raw st0"
    by simp_all
  from first obtain sta isoa where
    prepa: "Prepare st0 isolate adapted fp = Inr sta"
    and mata: "Materialize sta isolate = Inr (st1, isoa)"
    and storea: "StoreMaterializedValuesAndDeopt st1 isoa = Inr isolate1"
    by (auto simp: MaterializeFrame_def split: sum.splits)
  from second obtain stb isob where
    prepb: "Prepare st0 isolate1 adapted fp = Inr stb"
    and matb: "Materialize stb isolate1 = Inr (st2, isob)"
    and storeb: "StoreMaterializedValuesAndDeopt st2 isob = Inr isolate2"
    by (auto simp: MaterializeFrame_def split: sum.splits)
  note alla = Materialize_all [OF mata] and allb = Materialize_all [OF matb]
  from Prepare_shape [OF prepa] have shapea: "same_shape st0 sta"
    and fpa: "stack_frame_pointer sta = fp"
    by simp_all
  from Prepare_shape [OF prepb] have shapeb: "same_shape st0 stb"
    by simp
  from shapea have pos0: "object_positions sta = object_positions st0"
    unfolding same_shape_iff by blast
  from MaterializeAll_shape [OF alla] fpa fresh pos0
  have fp1: "stack_frame_pointer st1 = fp"
    and pos1: "object_positions st1 = object_positions st0"
    and tablea: "materialized_objects isoa (stack_frame_pointer st1) = None"
    by simp_all
  let ?mv = "materialized_values st1"
  from Store_result [OF storea tablea] fp1
  have table: "materialized_objects isolate1 fp
      = (if list_ex (\<lambda>obj. obj \<noteq> arguments_marker) ?mv then Some ?mv else None)"
    by (simp split: if_splits)
  have len: "length ?mv = length (object_positions st0)"
    by (simp add: materialized_values_def pos1)
  have captured: "\<exists>a. tv_value (value_at st1 p) = Some (Tagged a)
        \<and> ?mv ! tv_id (value_at st0 p) = Tagged a
        \<and> tv_value (value_at st2 p) = Some (Tagged a)
        \<and> materialized_objects isolate1 fp = Some ?mv"
    if valid: "valid_position st0 p" and kind: "tv_kind (value_at st0 p) = kCapturedObject" for p
  proof -
    from kind have obj: "is_object (value_at st0 p)"
      by (simp add: is_object_def)
    from first_run_objects(1) [OF wf raw prepa fresh mata valid] kind
    obtain a where v1: "tv_value (value_at st1 p) = Some (Tagged a)"
      by blast
    with materialized_values_at [OF wf pos1 valid obj]
    have mv: "?mv ! tv_id (value_at st0 p) = Tagged a"
      by (simp add: GetRawValue_def)
    with Prepare_again [OF wf raw prepb table len valid obj]
    have "tv_value (value_at stb p) = Some (Tagged a)"
      by simp
    with Materialize_values(1) [OF wf raw prepb matb valid, of "Tagged a"]
    have v2: "tv_value (value_at st2 p) = Some (Tagged a)"
      by simp
    from wf valid obj have "tv_id (value_at st0 p) < length (object_positions st0)"
      unfolding wf_positions_iff wf_value_def by blast
    with len have "?mv ! tv_id (value_at st0 p) \<in> set ?mv"
      by simp
    with mv have "list_ex (\<lambda>obj. obj \<noteq> arguments_marker) ?mv"
      unfolding list_ex_iff by force
    with table have "materialized_objects isolate1 fp = Some ?mv"
      by simp
    with v1 mv v2 show ?thesis
      by simp
  qed
  have arguments: "tv_value (value_at st1 p) = Some arguments_marker
        \<and> tv_value (value_at st2 p) = Some arguments_marker"
    if valid: "valid_position st0 p" and kind: "tv_kind (value_at st0 p) = kArgumentsObject" for p
  proof -
    from kind have obj: "is_object (value_at st0 p)"
      by (simp add: is_object_def)
    from first_run_objects(2) [OF wf raw prepa fresh mata valid] kind
    have v1: "tv_value (value_at st1 p) = Some arguments_marker"
      by simp
    with materialized_values_at [OF wf pos1 valid obj]
    have "?mv ! tv_id (value_at st0 p) = arguments_marker"
      by (simp add: GetRawValue_def)
    with Prepare_again [OF wf raw prepb table len valid obj]
    have "tv_value (value_at stb p) = None"
      by simp
    with Materialize_values(2) [OF wf raw prepb matb valid] kind v1
    show ?thesis
      by simp
  qed
  have object: "tv_value (value_at st2 p) = tv_value (value_at st1 p)"
    if "valid_position st0 p" and "is_object (value_at st0 p)" for p
    using that captured [of p] arguments [of p] by (auto simp: is_object_def)
  have same: "tv_value (value_at st2 p) = tv_value (value_at st1 p)"
    if valid: "valid_position st0 p" for p
  proof -
    consider "is_object (value_at st0 p)"
      | "tv_kind (value_at st0 p) = kDuplicatedObject"
      | "tv_kind (value_at st0 p) = kTagged"
      | "\<not> IsMaterializedObject (value_at st0 p) \<and> tv_kind (value_at st0 p) \<noteq> kTagged"
      by (cases "tv_kind (value_at st0 p)") (auto simp: is_object_def IsMaterializedObject_def)
    then show ?thesis
    proof cases
      case 1
      with valid show ?thesis by (rule object)
    next
      case 2
      let ?q = "object_positions st0 ! tv_id (value_at st0 p)"
      from wf valid 2 have "tv_id (value_at st0 p) < length (object_positions st0)"
        unfolding wf_positions_iff wf_value_def by blast
      with wf have "valid_position st0 ?q" and "is_object (value_at st0 ?q)"
        unfolding wf_positions_iff by blast+
      then have "tv_value (value_at st2 ?q) = tv_value (value_at st1 ?q)"
        by (rule object)
      with Materialize_values(4) [OF wf raw prepa mata valid]
        Materialize_values(4) [OF wf raw prepb matb valid] 2
      show ?thesis by simp
    next
      case 3
      with Materialize_values(5) [OF wf raw prepa mata valid]
        Materialize_values(5) [OF wf raw prepb matb valid]
      show ?thesis by simp
    next
      case 4
      with Materialize_values(6) [OF wf raw prepa mata valid]
        Materialize_values(6) [OF wf raw prepb matb valid]
      show ?thesis by simp
    qed
  qed
  have "\<not> needs_allocation stb p" if mem: "p \<in> set (all_positions stb)" for p
  proof
    assume need: "needs_allocation stb p"
    from mem have "valid_position stb p"
      by (simp add: set_all_positions)
    with same_shape_valid [OF shapeb] have valid: "valid_position st0 p"
      by simp
    with shapeb have "same_fields (value_at st0 p) (value_at stb p)"
      unfolding same_shape_iff by blast
    with need have kind: "tv_kind (value_at st0 p) = kCapturedObject"
      and none: "tv_value (value_at stb p) = None"
      by (simp_all add: needs_allocation_def same_fields_def)
    from kind have obj: "is_object (value_at st0 p)"
      by (simp add: is_object_def)
    from captured [OF valid kind] Prepare_again [OF wf raw prepb table len valid obj] none
    show False
      by auto
  qed
  then have "filter (needs_allocation stb) (all_positions stb) = []"
    by (simp add: filter_empty_conv)
  with MaterializeAll_allocations [OF allb distinct_all_positions]
    Store_next_address [OF storeb]
  have "next_address isolate2 = next_address isolate1"
    by simp
  moreover from same
  have "\<forall>p. valid_position st0 p \<longrightarrow> tv_value (value_at st2 p) = tv_value (value_at st1 p)"
    by blast
  moreover from captured
  have "\<forall>p. valid_position st0 p \<and> tv_kind (value_at st0 p) = kCapturedObject \<longrightarrow>
            (\<exists>mv. MaterializedObjectStore_Get isolate1 fp = Some mv
                 \<and> tv_value (value_at st2 p) = Some (mv ! tv_id (value_at st0 p)))"
    unfolding MaterializedObjectStore_Get_def by metis
  ultimately show ?thesis
    by blast
qed
theorem repeated_materialization_witness:
  "Init example_input (example_iterator 0) = Inr example_state
   \<and> MaterializedObjectStore_Get example_isolate 5000 = None
   \<and> \<not> isl (MaterializeFrame example_state example_isolate False 5000)
   \<and> \<not> isl (MaterializeFrame example_state (snd example_first) False 5000)
   \<and> next_address (snd example_first) = 1001
   \<and> next_address (snd example_second) = 1001
   \<and> valid_position example_state (0, 1)
   \<and> tv_kind (value_at example_state (0, 1)) = kCapturedObject
   \<and> tv_id (value_at example_state (0, 1)) = 0
   \<and> MaterializedObjectStore_Get (snd example_first) 5000 = Some [Tagged 1000]
   \<and> tv_value (value_at (fst example_first) (0, 1)) = Some (Tagged 1000)
   \<and> tv_value (value_at (fst example_second) (0, 1)) = Some (Tagged 1000)
   \<and> valid_position example_state (0, 4)
   \<and> tv_value (value_at (fst example_first) (0, 4)) = Some (Tagged 1000)
   \<and> tv_value (value_at (fst example_second) (0, 4)) = Some (Tagged 1000)"
proof -
  have fresh: "materialized_objects example_isolate 5000 = None"
    by (simp add: example_isolate_def)
  have ok1: "\<not> isl (MaterializeFrame example_state example_isolate False 5000)"
    by code_simp
  then have first: "MaterializeFrame example_state example_isolate False 5000
      = Inr (fst example_first, snd example_first)"
    unfolding example_first_def by simp
  have ok2: "\<not> isl (MaterializeFrame example_state (snd example_first) False 5000)"
    by code_simp
  then have second: "MaterializeFrame example_state (snd example_first) False 5000
      = Inr (fst example_second, snd example_second)"
    unfolding example_second_def by simp
  have facts: "valid_position example_state (0, 1)"
    "tv_kind (value_at example_state (0, 1)) = kCapturedObject"
    "tv_id (value_at example_state (0, 1)) = 0"
    "valid_position example_state (0, 4)"
    "next_address (snd example_first) = 1001"
    "materialized_objects (snd example_first) 5000 = Some [Tagged 1000]"
    "tv_value (value_at (fst example_first) (0, 1)) = Some (Tagged 1000)"
    "tv_value (value_at (fst example_first) (0, 4)) = Some (Tagged 1000)"
    by code_simp+
  from repeated_materialization [OF example_Init fresh first second]
  have "next_address (snd example_second) = next_address (snd example_first)"
    and all: "\<And>p. valid_position example_state p \<Longrightarrow>
      tv_value (value_at (fst example_second) p) = tv_value (value_at (fst example_first) p)"
    by blast+
  with all [of "(0, 1)"] all [of "(0, 4)"] facts ok1 ok2 fresh example_Init
  show ?thesis
    by (simp add: MaterializedObjectStore_Get_def)
qed

section \<open>The arguments-object placeholder\<close>






end
